theory Spec2Isabelle
  imports Main "HOL-Library.Word"
begin

unbundle bit_operations_syntax

section \<open>Machine types and results\<close>

type_synonym byte = "8 word"
type_synonym u16 = "16 word"
type_synonym u32 = "32 word"
type_synonym u64 = "64 word"

text \<open>What C leaves undefined, or aborts on, is a value of the model.\<close>

datatype error = Out_of_bounds | Null_deref | Use_after_free | Division_by_zero | Assert_failed

definition UINT64_MAX :: u64 where
  "UINT64_MAX = 0xFFFFFFFFFFFFFFFF"

definition UINT16_MAX :: nat where
  "UINT16_MAX = 65535"

text \<open>\<^verbatim>\<open>struct urational\<close> (upipe/ubase.h): a numerator and a denominator of 64 bits.
  The framer only stores non-negative numerators, and its one division converts the
  numerator to \<^verbatim>\<open>uint64_t\<close>; both members are 64-bit words here.\<close>

record urational =
  num :: u64
  den :: u64

section \<open>The MPEG-2 video framer (lib/upipe-framers/upipe_mp2v_framer.c)\<close>

subsection \<open>Constants of ISO/IEC 13818-2 and of the clock\<close>

text \<open>Modelled from the spec: \<^verbatim>\<open>UCLOCK_FREQ\<close> (upipe/uclock.h) is not among the sources; the
  clock unit is 27 MHz.\<close>

definition UCLOCK_FREQ :: u64 where
  "UCLOCK_FREQ = 27000000"

text \<open>Modelled from the spec: the start codes, header sizes and field codes of
  \<^verbatim>\<open>bitstream/mpeg/mp2v.h\<close> are not among the sources; they are the constants of
  ISO/IEC 13818-2 (table 6-1 for the start codes).\<close>

definition MP2VPIC_START_CODE :: byte where "MP2VPIC_START_CODE = 0x00"
definition MP2VPIC_LAST_CODE :: byte where "MP2VPIC_LAST_CODE = 0xAF"
definition MP2VSEQ_START_CODE :: byte where "MP2VSEQ_START_CODE = 0xB3"
definition MP2VX_START_CODE :: byte where "MP2VX_START_CODE = 0xB5"
definition MP2VEND_START_CODE :: byte where "MP2VEND_START_CODE = 0xB7"
definition MP2VGOP_START_CODE :: byte where "MP2VGOP_START_CODE = 0xB8"

definition MP2VSEQ_HEADER_SIZE :: nat where "MP2VSEQ_HEADER_SIZE = 12"
definition MP2VSEQX_HEADER_SIZE :: nat where "MP2VSEQX_HEADER_SIZE = 10"
definition MP2VSEQDX_HEADER_SIZE :: nat where "MP2VSEQDX_HEADER_SIZE = 9"
definition MP2VSEQDX_COLOR_SIZE :: nat where "MP2VSEQDX_COLOR_SIZE = 3"
definition MP2VGOP_HEADER_SIZE :: nat where "MP2VGOP_HEADER_SIZE = 8"
definition MP2VPIC_HEADER_SIZE :: nat where "MP2VPIC_HEADER_SIZE = 8"
definition MP2VPICX_HEADER_SIZE :: nat where "MP2VPICX_HEADER_SIZE = 9"

definition MP2VX_ID_SEQX :: byte where "MP2VX_ID_SEQX = 1"
definition MP2VX_ID_SEQDX :: byte where "MP2VX_ID_SEQDX = 2"
definition MP2VX_ID_PICX :: byte where "MP2VX_ID_PICX = 8"

definition MP2VPIC_TYPE_I :: byte where "MP2VPIC_TYPE_I = 1"

definition MP2VPICX_TOP_FIELD :: byte where "MP2VPICX_TOP_FIELD = 1"
definition MP2VPICX_BOTTOM_FIELD :: byte where "MP2VPICX_BOTTOM_FIELD = 2"
definition MP2VPICX_FRAME_PICTURE :: byte where "MP2VPICX_FRAME_PICTURE = 3"

definition MP2VSEQX_LEVEL_MASK :: byte where "MP2VSEQX_LEVEL_MASK = 0x0F"
definition MP2VSEQX_LEVEL_LOW :: byte where "MP2VSEQX_LEVEL_LOW = 10"
definition MP2VSEQX_LEVEL_MAIN :: byte where "MP2VSEQX_LEVEL_MAIN = 8"
definition MP2VSEQX_LEVEL_HIGH1440 :: byte where "MP2VSEQX_LEVEL_HIGH1440 = 6"
definition MP2VSEQX_LEVEL_HIGH :: byte where "MP2VSEQX_LEVEL_HIGH = 4"

definition MP2VSEQX_CHROMA_420 :: byte where "MP2VSEQX_CHROMA_420 = 1"
definition MP2VSEQX_CHROMA_422 :: byte where "MP2VSEQX_CHROMA_422 = 2"
definition MP2VSEQX_CHROMA_444 :: byte where "MP2VSEQX_CHROMA_444 = 3"

definition MP2VSEQ_ASPECT_SQUARE :: byte where "MP2VSEQ_ASPECT_SQUARE = 1"
definition MP2VSEQ_ASPECT_4_3 :: byte where "MP2VSEQ_ASPECT_4_3 = 2"
definition MP2VSEQ_ASPECT_16_9 :: byte where "MP2VSEQ_ASPECT_16_9 = 3"
definition MP2VSEQ_ASPECT_2_21 :: byte where "MP2VSEQ_ASPECT_2_21 = 4"

text \<open>The tokens \<^verbatim>\<open>FIND_START\<close>, \<^verbatim>\<open>FIND_GOP\<close> and \<^verbatim>\<open>FIND_EXTENSION\<close>.\<close>

definition FIND_START :: "byte list" where
  "FIND_START = [0, 0, 1]"

definition FIND_GOP :: "byte list" where
  "FIND_GOP = [0, 0, 1, MP2VGOP_START_CODE]"

definition FIND_EXTENSION :: "byte list" where
  "FIND_EXTENSION = [0, 0, 1, MP2VX_START_CODE]"

text \<open>The header accessors of \<^verbatim>\<open>bitstream/mpeg/mp2v.h\<close> belong to another library. They are
  a parameter of the model: every function of the framer that reads a header takes the
  accessors as its first argument, and the theorems hold for all of them.\<close>

record mp2v_accessors =
  mp2vseq_get_horizontal :: "byte list \<Rightarrow> u16"
  mp2vseq_get_vertical :: "byte list \<Rightarrow> u16"
  mp2vseq_get_aspect :: "byte list \<Rightarrow> byte"
  mp2vseq_get_framerate :: "byte list \<Rightarrow> byte"
  mp2vseq_get_bitrate :: "byte list \<Rightarrow> u32"
  mp2vseq_get_vbvbuffer :: "byte list \<Rightarrow> u32"
  mp2vseqx_get_profilelevel :: "byte list \<Rightarrow> byte"
  mp2vseqx_get_progressive :: "byte list \<Rightarrow> bool"
  mp2vseqx_get_chroma :: "byte list \<Rightarrow> byte"
  mp2vseqx_get_horizontal :: "byte list \<Rightarrow> byte"
  mp2vseqx_get_vertical :: "byte list \<Rightarrow> byte"
  mp2vseqx_get_bitrate :: "byte list \<Rightarrow> u16"
  mp2vseqx_get_vbvbuffer :: "byte list \<Rightarrow> byte"
  mp2vseqx_get_lowdelay :: "byte list \<Rightarrow> bool"
  mp2vseqx_get_frameraten :: "byte list \<Rightarrow> byte"
  mp2vseqx_get_framerated :: "byte list \<Rightarrow> byte"
  mp2vseqdx_get_horizontal :: "byte list \<Rightarrow> u16"
  mp2vseqdx_get_vertical :: "byte list \<Rightarrow> u16"
  mp2vgop_get_closedgop :: "byte list \<Rightarrow> bool"
  mp2vgop_get_brokenlink :: "byte list \<Rightarrow> bool"
  mp2vpic_get_temporalreference :: "byte list \<Rightarrow> u16"
  mp2vpic_get_codingtype :: "byte list \<Rightarrow> byte"
  mp2vpic_get_vbvdelay :: "byte list \<Rightarrow> u16"
  mp2vpicx_get_intradc :: "byte list \<Rightarrow> byte"
  mp2vpicx_get_structure :: "byte list \<Rightarrow> byte"
  mp2vpicx_get_tff :: "byte list \<Rightarrow> bool"
  mp2vpicx_get_rff :: "byte list \<Rightarrow> bool"
  mp2vpicx_get_progressive :: "byte list \<Rightarrow> bool"


subsection \<open>Urefs and ubufs\<close>

text \<open>Modelled from the spec: the headers of ubuf and uref (upipe/ubuf.h, upipe/uref*.h)
  are not among the sources. A block ubuf is its octets; a uref owns a dictionary of
  attributes and at most one ubuf. An attribute is named after its accessor family
  (\<^verbatim>\<open>uref_clock_set_pts\<close> writes \<open>K_pts\<close>, the attribute \<^verbatim>\<open>k.pts\<close>). Whether the allocator
  serves a request is an input of the model: a ubuf and a uref say whether duplicating
  them is refused, and a uref says for which attributes a write is refused.\<close>

record ubuf =
  octets :: "byte list"
  ubuf_dup_refused :: bool

datatype ukey =
    F_def | F_disc | F_random | F_error
  | K_systime_rap | K_pts | K_pts_orig | K_pts_sys | K_dts | K_dts_orig | K_dts_sys
  | K_vbvdelay | K_duration
  | P_num | P_hsize | P_vsize | P_hsizevis | P_vsizevis | P_aspect | P_progressive
  | P_tf | P_bf | P_tff
  | Mp2v_type | Mp2v_flow_profilelevel | Mp2v_flow_lowdelay
  | Block_flow_max_octetrate | Block_flow_octetrate | Block_flow_cpb_buffer
  | Pic_flow_macropixel | Pic_flow_planes | Pic_flow_fps

datatype uval =
    VVoid
  | VUnsigned u64
  | VSmall_unsigned byte
  | VString string
  | VRational urational
  | VPlanes "(byte \<times> byte \<times> byte \<times> string) list"

record uref =
  attrs :: "ukey \<Rightarrow> uval option"
  ubuf :: "ubuf option"
  attr_refused :: "ukey \<Rightarrow> bool"
  uref_dup_refused :: bool

definition ubuf_dup :: "ubuf \<Rightarrow> ubuf option" where
  "ubuf_dup b = (if ubuf_dup_refused b then None else Some b)"

definition uref_dup :: "uref \<Rightarrow> uref option" where
  "uref_dup u = (if uref_dup_refused u then None else Some u)"

definition uref_attr_set :: "uref \<Rightarrow> ukey \<Rightarrow> uval \<Rightarrow> uref option" where
  "uref_attr_set u k v =
     (if attr_refused u k then None else Some (u\<lparr>attrs := (attrs u)(k \<mapsto> v)\<rparr>))"

definition uref_attr_delete :: "uref \<Rightarrow> ukey \<Rightarrow> uref" where
  "uref_attr_delete u k = u\<lparr>attrs := (attrs u)(k := None)\<rparr>"

definition uref_attr_get_unsigned :: "uref \<Rightarrow> ukey \<Rightarrow> u64 option" where
  "uref_attr_get_unsigned u k = (case attrs u k of Some (VUnsigned v) \<Rightarrow> Some v | _ \<Rightarrow> None)"

text \<open>The idiom \<^verbatim>\<open>ret = ret && uref_..._set_...(uref, v)\<close>: the write is attempted only
  while \<open>ret\<close> holds.\<close>

definition and_set :: "bool \<times> uref \<Rightarrow> ukey \<Rightarrow> uval \<Rightarrow> bool \<times> uref" where
  "and_set ru k v =
     (if fst ru then
        (case uref_attr_set (snd ru) k v of
           None \<Rightarrow> (False, snd ru)
         | Some u' \<Rightarrow> (True, u'))
      else ru)"

text \<open>Modelled from the spec: \<^verbatim>\<open>find(&offset, pattern)\<close> scans for a byte pattern and on
  success leaves the offset at the first byte of the match. \<open>find_octets\<close> is the
  position of the first match in a list.\<close>

fun find_octets :: "byte list \<Rightarrow> byte list \<Rightarrow> nat option" where
  "find_octets pat [] = (if pat = [] then Some 0 else None)"
| "find_octets pat (x # xs) =
     (if take (length pat) (x # xs) = pat then Some 0
      else map_option Suc (find_octets pat xs))"

definition ubuf_block_find :: "ubuf \<Rightarrow> nat \<Rightarrow> byte list \<Rightarrow> nat option" where
  "ubuf_block_find b offset pat =
     map_option (\<lambda>k. offset + k) (find_octets pat (drop offset (octets b)))"

definition ubuf_block_peek :: "ubuf \<Rightarrow> nat \<Rightarrow> nat \<Rightarrow> byte list option" where
  "ubuf_block_peek b offset n =
     (if offset + n \<le> length (octets b) then Some (take n (drop offset (octets b))) else None)"

definition ubuf_block_extract :: "ubuf \<Rightarrow> nat \<Rightarrow> byte option" where
  "ubuf_block_extract b offset =
     (if offset < length (octets b) then Some (octets b ! offset) else None)"

definition ubuf_block_resize :: "ubuf \<Rightarrow> nat \<Rightarrow> nat \<Rightarrow> ubuf option" where
  "ubuf_block_resize b offset n =
     (if offset + n \<le> length (octets b)
      then Some (b\<lparr>octets := take n (drop offset (octets b))\<rparr>) else None)"

definition ubuf_block_compare :: "ubuf \<Rightarrow> ubuf \<Rightarrow> bool" where
  "ubuf_block_compare a b = (octets a = octets b)"

definition uref_block_find :: "uref \<Rightarrow> nat \<Rightarrow> byte list \<Rightarrow> nat option" where
  "uref_block_find u offset pat =
     (case ubuf u of None \<Rightarrow> None | Some b \<Rightarrow> ubuf_block_find b offset pat)"

definition uref_block_peek :: "uref \<Rightarrow> nat \<Rightarrow> nat \<Rightarrow> byte list option" where
  "uref_block_peek u offset n =
     (case ubuf u of None \<Rightarrow> None | Some b \<Rightarrow> ubuf_block_peek b offset n)"

definition uref_block_extract :: "uref \<Rightarrow> nat \<Rightarrow> byte option" where
  "uref_block_extract u offset =
     (case ubuf u of None \<Rightarrow> None | Some b \<Rightarrow> ubuf_block_extract b offset)"

definition uref_block_resize :: "uref \<Rightarrow> nat \<Rightarrow> nat \<Rightarrow> uref option" where
  "uref_block_resize u offset n =
     (case ubuf u of
        None \<Rightarrow> None
      | Some b \<Rightarrow> map_option (\<lambda>b'. u\<lparr>ubuf := Some b'\<rparr>) (ubuf_block_resize b offset n))"

definition uref_block_size :: "uref \<Rightarrow> nat" where
  "uref_block_size u = (case ubuf u of None \<Rightarrow> 0 | Some b \<Rightarrow> length (octets b))"

definition uref_block_insert :: "uref \<Rightarrow> ubuf \<Rightarrow> uref" where
  "uref_block_insert u b =
     (case ubuf u of
        None \<Rightarrow> u
      | Some b0 \<Rightarrow> u\<lparr>ubuf := Some (b0\<lparr>octets := octets b @ octets b0\<rparr>)\<rparr>)"

subsection \<open>The private context of the pipe\<close>

datatype event = Ready | Dead | Sync_acquired | Sync_lost | Aerror | Flow_def_error

text \<open>\<^verbatim>\<open>struct upipe_mp2vf\<close>, member for member (the reference count left out). The output
  pipe is the list \<open>sent\<close> of the urefs handed to it, and the probe the list \<open>events\<close>
  of the events thrown.\<close>

record upipe_mp2vf =
  flow_def :: "uref option"
  flow_def_sent :: bool
  flow_def_input :: "uref option"
  systime_rap :: u64
  last_picture_number :: u64
  last_temporal_reference :: int
  got_discontinuity :: bool
  insert_sequence :: bool
  sequence_header :: "ubuf option"
  sequence_ext :: "ubuf option"
  sequence_display :: "ubuf option"
  progressive_sequence :: bool
  fps :: urational
  next_uref :: "uref option"
  next_uref_size :: nat
  urefs :: "uref list"
  next_frame_size :: nat
  next_frame_sequence :: bool
  next_frame_offset :: int
  next_frame_slice :: bool
  next_frame_pts_orig :: u64
  next_frame_pts :: u64
  next_frame_pts_sys :: u64
  next_frame_dts_orig :: u64
  next_frame_dts :: u64
  next_frame_dts_sys :: u64
  acquired :: bool
  sent :: "uref list"
  events :: "event list"

definition upipe_throw :: "event \<Rightarrow> upipe_mp2vf \<Rightarrow> upipe_mp2vf" where
  "upipe_throw e s = s\<lparr>events := events s @ [e]\<rparr>"

text \<open>Modelled from the spec: \<^verbatim>\<open>UPIPE_HELPER_SYNC\<close> is not among the sources; the pipe raises
  \<^verbatim>\<open>sync_acquired\<close> and \<^verbatim>\<open>sync_lost\<close> on the transitions of \<open>acquired\<close>.\<close>

definition upipe_mp2vf_sync_acquired :: "upipe_mp2vf \<Rightarrow> upipe_mp2vf" where
  "upipe_mp2vf_sync_acquired s =
     (if acquired s then s else upipe_throw Sync_acquired (s\<lparr>acquired := True\<rparr>))"

definition upipe_mp2vf_sync_lost :: "upipe_mp2vf \<Rightarrow> upipe_mp2vf" where
  "upipe_mp2vf_sync_lost s =
     (if acquired s then upipe_throw Sync_lost (s\<lparr>acquired := False\<rparr>) else s)"

text \<open>Modelled from the spec: \<^verbatim>\<open>UPIPE_HELPER_OUTPUT\<close> is not among the sources; a stored flow
  definition is emitted downstream before the next frame.\<close>

definition upipe_mp2vf_store_flow_def :: "upipe_mp2vf \<Rightarrow> uref option \<Rightarrow> upipe_mp2vf" where
  "upipe_mp2vf_store_flow_def s fd = s\<lparr>flow_def := fd, flow_def_sent := False\<rparr>"

definition upipe_mp2vf_output :: "upipe_mp2vf \<Rightarrow> uref \<Rightarrow> upipe_mp2vf" where
  "upipe_mp2vf_output s u =
     (case flow_def s of
        Some fd \<Rightarrow>
          (if flow_def_sent s then s\<lparr>sent := sent s @ [u]\<rparr>
           else s\<lparr>flow_def_sent := True, sent := sent s @ [fd, u]\<rparr>)
      | None \<Rightarrow> s\<lparr>sent := sent s @ [u]\<rparr>)"

subsection \<open>Timestamps\<close>

definition upipe_mp2vf_flush_pts :: "upipe_mp2vf \<Rightarrow> upipe_mp2vf" where
  "upipe_mp2vf_flush_pts s =
     s\<lparr>next_frame_pts_orig := UINT64_MAX,
       next_frame_pts := UINT64_MAX,
       next_frame_pts_sys := UINT64_MAX\<rparr>"

definition upipe_mp2vf_flush_dts :: "upipe_mp2vf \<Rightarrow> upipe_mp2vf" where
  "upipe_mp2vf_flush_dts s =
     s\<lparr>next_frame_dts_orig := UINT64_MAX,
       next_frame_dts := UINT64_MAX,
       next_frame_dts_sys := UINT64_MAX\<rparr>"

definition upipe_mp2vf_increment_dts :: "upipe_mp2vf \<Rightarrow> u64 \<Rightarrow> upipe_mp2vf" where
  "upipe_mp2vf_increment_dts s duration =
     (let s1 = (if next_frame_dts_orig s \<noteq> UINT64_MAX
                then s\<lparr>next_frame_dts_orig := next_frame_dts_orig s + duration\<rparr> else s);
          s2 = (if next_frame_dts s1 \<noteq> UINT64_MAX
                then s1\<lparr>next_frame_dts := next_frame_dts s1 + duration\<rparr> else s1)
      in (if next_frame_dts_sys s2 \<noteq> UINT64_MAX
          then s2\<lparr>next_frame_dts_sys := next_frame_dts_sys s2 + duration\<rparr> else s2))"

text \<open>The hook \<^verbatim>\<open>upipe_mp2vf_promote_uref\<close>: the timestamps the promoted uref carries
  replace the registers, the others stay.\<close>

definition promote_timestamp :: "uref \<Rightarrow> ukey \<Rightarrow> u64 \<Rightarrow> u64" where
  "promote_timestamp u k reg = (case uref_attr_get_unsigned u k of Some ts \<Rightarrow> ts | None \<Rightarrow> reg)"

definition upipe_mp2vf_promote_uref :: "upipe_mp2vf \<Rightarrow> upipe_mp2vf" where
  "upipe_mp2vf_promote_uref s =
     (case next_uref s of
        None \<Rightarrow> s
      | Some u \<Rightarrow>
          s\<lparr>next_frame_pts_orig := promote_timestamp u K_pts_orig (next_frame_pts_orig s),
            next_frame_pts := promote_timestamp u K_pts (next_frame_pts s),
            next_frame_pts_sys := promote_timestamp u K_pts_sys (next_frame_pts_sys s),
            next_frame_dts_orig := promote_timestamp u K_dts_orig (next_frame_dts_orig s),
            next_frame_dts := promote_timestamp u K_dts (next_frame_dts s),
            next_frame_dts_sys := promote_timestamp u K_dts_sys (next_frame_dts_sys s)\<rparr>)"


subsection \<open>Parsing a picture header\<close>

text \<open>\<^verbatim>\<open>upipe_mp2vf_find_ext\<close>: the next extension start code from \<open>offset\<close> on, and the
  identifier in the high nibble of the octet after it.\<close>

definition upipe_mp2vf_find_ext :: "uref \<Rightarrow> nat \<Rightarrow> (nat \<times> byte) option" where
  "upipe_mp2vf_find_ext u offset =
     (case uref_block_find u offset FIND_EXTENSION of
        None \<Rightarrow> None
      | Some found \<Rightarrow>
          (case uref_block_extract u (found + 4) of
             None \<Rightarrow> None
           | Some start \<Rightarrow> Some (found, drop_bit 4 start)))"

text \<open>The duration of a picture, from the base duration and the flags of its picture
  coding extension (lines 786 to 795 of the source).\<close>

definition picture_duration :: "bool \<Rightarrow> byte \<Rightarrow> bool \<Rightarrow> bool \<Rightarrow> u64 \<Rightarrow> u64" where
  "picture_duration progressive_seq structure tff rff duration =
     (if progressive_seq then
        (if rff then duration * (1 + (if tff then 1 else 0)) else duration)
      else
        (if structure = MP2VPICX_FRAME_PICTURE then
           (if rff then duration + duration div 2 else duration)
         else duration div 2))"

text \<open>The macro \<^verbatim>\<open>SET_TIMESTAMP\<close> of \<^verbatim>\<open>upipe_mp2vf_parse_picture\<close>.\<close>

definition set_timestamp :: "u64 \<Rightarrow> ukey \<Rightarrow> bool \<times> uref \<Rightarrow> bool \<times> uref" where
  "set_timestamp reg k ru =
     (if reg \<noteq> UINT64_MAX then and_set ru k (VUnsigned reg)
      else (fst ru, uref_attr_delete (snd ru) k))"

definition set_timestamps :: "upipe_mp2vf \<Rightarrow> uref \<Rightarrow> bool \<times> uref" where
  "set_timestamps s u =
     set_timestamp (next_frame_dts_sys s) K_dts_sys
       (set_timestamp (next_frame_dts s) K_dts
         (set_timestamp (next_frame_dts_orig s) K_dts_orig
           (set_timestamp (next_frame_pts_sys s) K_pts_sys
             (set_timestamp (next_frame_pts s) K_pts
               (set_timestamp (next_frame_pts_orig s) K_pts_orig (True, u))))))"

text \<open>The functions below are \<^verbatim>\<open>upipe_mp2vf_parse_picture\<close> cut at its early returns. Each
  returns what the C function returns, the pipe as it leaves it, and the uref (\<open>None\<close>
  once it has been freed).\<close>

type_synonym parse_result = "error + (bool \<times> upipe_mp2vf \<times> uref option)"

text \<open>Lines 809 to 832: the timestamps, then the registers.\<close>

definition parse_picture_finish :: "upipe_mp2vf \<Rightarrow> uref \<Rightarrow> u64 \<Rightarrow> parse_result" where
  "parse_picture_finish s u duration =
     (let r = set_timestamps s u;
          s' = upipe_mp2vf_increment_dts (upipe_mp2vf_flush_pts s) duration
      in (if \<not> fst r then Inr (True, upipe_throw Aerror s', None)
          else Inr (True, s', Some (snd r))))"

text \<open>Lines 762 to 806: the picture coding extension.\<close>

definition parse_picture_ext ::
  "mp2v_accessors \<Rightarrow> upipe_mp2vf \<Rightarrow> uref \<Rightarrow> u64 \<Rightarrow> nat \<Rightarrow> parse_result" where
  "parse_picture_ext bs s u duration ext_offset =
     (case uref_block_peek u ext_offset MP2VPICX_HEADER_SIZE of
        None \<Rightarrow> Inr (False, upipe_throw Aerror s, Some u)
      | Some ext \<Rightarrow>
          (let structure = mp2vpicx_get_structure bs ext;
               tff = mp2vpicx_get_tff bs ext;
               rff = mp2vpicx_get_rff bs ext;
               progressive = mp2vpicx_get_progressive bs ext;
               duration' = picture_duration (progressive_sequence s) structure tff rff duration;
               r1 = (if structure AND MP2VPICX_TOP_FIELD \<noteq> 0
                     then and_set (True, u) P_tf VVoid else (True, u));
               r2 = (if structure AND MP2VPICX_BOTTOM_FIELD \<noteq> 0
                     then and_set r1 P_bf VVoid else r1);
               r3 = (if tff then and_set r2 P_tff VVoid else r2);
               r4 = and_set r3 K_duration (VUnsigned duration');
               r5 = (if progressive then and_set r4 P_progressive VVoid else r4)
           in (if \<not> fst r5 then Inr (False, upipe_throw Aerror s, Some (snd r5))
               else parse_picture_finish s (snd r5) duration')))"

text \<open>Lines 750 to 760: the base duration and the search for an extension. A division
  by a zero \<open>fps.num\<close> is undefined in C.\<close>

definition parse_picture_duration ::
  "mp2v_accessors \<Rightarrow> upipe_mp2vf \<Rightarrow> uref \<Rightarrow> parse_result" where
  "parse_picture_duration bs s u =
     (if num (fps s) = 0 then Inl Division_by_zero
      else
        (let duration = UCLOCK_FREQ * den (fps s) div num (fps s)
         in (case upipe_mp2vf_find_ext u (nat (next_frame_offset s) + MP2VPIC_HEADER_SIZE) of
               None \<Rightarrow> parse_picture_finish s u duration
             | Some (ext_offset, ext_header) \<Rightarrow>
                 (if ext_header \<noteq> MP2VX_ID_PICX then Inr (False, s, Some u)
                  else parse_picture_ext bs s u duration ext_offset))))"

text \<open>Lines 717 to 748: the picture header and the picture number. The temporal
  reference is a \<^verbatim>\<open>uint16_t\<close> promoted to \<^verbatim>\<open>int\<close>; the difference is converted to
  \<^verbatim>\<open>uint64_t\<close> and added modulo \<open>2 ^ 64\<close>.\<close>

definition parse_picture_header ::
  "mp2v_accessors \<Rightarrow> upipe_mp2vf \<Rightarrow> uref \<Rightarrow> parse_result" where
  "parse_picture_header bs s u =
     (case (if next_frame_offset s < 0 then None
            else uref_block_peek u (nat (next_frame_offset s)) MP2VPIC_HEADER_SIZE) of
        None \<Rightarrow> Inr (False, upipe_throw Aerror s, Some u)
      | Some picture \<Rightarrow>
          (let temporalreference = mp2vpic_get_temporalreference bs picture;
               codingtype = mp2vpic_get_codingtype bs picture;
               vbvdelay = mp2vpic_get_vbvdelay bs picture;
               picture_number = last_picture_number s +
                 word_of_int (uint temporalreference - last_temporal_reference s);
               s' = (if uint temporalreference > last_temporal_reference s
                     then s\<lparr>last_temporal_reference := uint temporalreference,
                            last_picture_number := picture_number\<rparr>
                     else s);
               r1 = and_set (True, u) P_num (VUnsigned picture_number);
               r2 = and_set r1 Mp2v_type (VSmall_unsigned codingtype);
               r3 = (if vbvdelay \<noteq> 0xFFFF
                     then and_set r2 K_vbvdelay (VUnsigned (ucast vbvdelay * UCLOCK_FREQ div 90000))
                     else r2)
           in (if \<not> fst r3 then Inr (False, upipe_throw Aerror s', Some (snd r3))
               else parse_picture_duration bs s' (snd r3))))"

text \<open>Lines 685 to 709: a GOP header in front of the picture header.\<close>

definition parse_picture_gop ::
  "mp2v_accessors \<Rightarrow> upipe_mp2vf \<Rightarrow> uref \<Rightarrow> upipe_mp2vf \<times> (bool \<times> bool) option" where
  "parse_picture_gop bs s u =
     (if next_frame_offset s \<noteq> 0 then
        (case uref_block_find u 0 FIND_GOP of
           None \<Rightarrow> (s, Some (False, False))
         | Some gop_offset \<Rightarrow>
             (case uref_block_peek u gop_offset MP2VGOP_HEADER_SIZE of
                None \<Rightarrow> (upipe_throw Aerror s, None)
              | Some gop \<Rightarrow>
                  (s\<lparr>last_temporal_reference := - 1\<rparr>,
                   Some (mp2vgop_get_closedgop bs gop, mp2vgop_get_brokenlink bs gop))))
      else (s, Some (False, False)))"

definition upipe_mp2vf_parse_picture ::
  "mp2v_accessors \<Rightarrow> upipe_mp2vf \<Rightarrow> uref \<Rightarrow> parse_result" where
  "upipe_mp2vf_parse_picture bs s u =
     (case parse_picture_gop bs s u of
        (s1, None) \<Rightarrow> Inr (False, s1, Some u)
      | (s1, Some (closedgop, brokenlink)) \<Rightarrow>
          (case (if brokenlink \<or> (\<not> closedgop \<and> got_discontinuity s1)
                 then uref_attr_set u F_disc VVoid else Some u) of
             None \<Rightarrow> Inr (False, upipe_throw Aerror s1, Some u)
           | Some u1 \<Rightarrow> parse_picture_header bs s1 u1))"


subsection \<open>Handling a picture\<close>

text \<open>\<^verbatim>\<open>uref_flow_set_random\<close> and \<^verbatim>\<open>uref_clock_set_systime_rap\<close> are called without a look
  at what they return.\<close>

definition set_unchecked :: "uref \<Rightarrow> ukey \<Rightarrow> uval \<Rightarrow> uref" where
  "set_unchecked u k v = (case uref_attr_set u k v of None \<Rightarrow> u | Some u' \<Rightarrow> u')"

text \<open>Lines 859 to 883: the cached sequence display extension, sequence extension and
  sequence header are put in front of the frame, in this order.\<close>

definition insert_cached :: "ubuf option \<Rightarrow> uref \<Rightarrow> uref option" where
  "insert_cached cached u =
     (case cached of
        None \<Rightarrow> Some u
      | Some b \<Rightarrow> map_option (uref_block_insert u) (ubuf_dup b))"

definition upipe_mp2vf_handle_picture ::
  "mp2v_accessors \<Rightarrow> upipe_mp2vf \<Rightarrow> uref \<Rightarrow> parse_result" where
  "upipe_mp2vf_handle_picture bs s u =
     (case upipe_mp2vf_parse_picture bs s u of
        Inl e \<Rightarrow> Inl e
      | Inr (False, s1, uo) \<Rightarrow> Inr (False, s1, uo)
      | Inr (True, s1, None) \<Rightarrow> Inl Use_after_free
      | Inr (True, s1, Some u1) \<Rightarrow>
          (case attrs u1 Mp2v_type of
             Some (VSmall_unsigned type) \<Rightarrow>
               (if type = MP2VPIC_TYPE_I then
                  (let rap = (case uref_attr_get_unsigned u1 K_systime_rap of
                                Some v \<Rightarrow> v | None \<Rightarrow> UINT64_MAX)
                   in (if next_frame_sequence s1 then
                         Inr (True, s1\<lparr>systime_rap := rap\<rparr>,
                              Some (set_unchecked u1 F_random VVoid))
                       else if insert_sequence s1 then
                         (case insert_cached (sequence_display s1) u1 of
                            None \<Rightarrow> Inr (False, upipe_throw Aerror s1, Some u1)
                          | Some u2 \<Rightarrow>
                              (case insert_cached (sequence_ext s1) u2 of
                                 None \<Rightarrow> Inr (False, upipe_throw Aerror s1, Some u2)
                               | Some u3 \<Rightarrow>
                                   (case sequence_header s1 of
                                      None \<Rightarrow> Inl Null_deref
                                    | Some sh \<Rightarrow>
                                        (case ubuf_dup sh of
                                           None \<Rightarrow> Inr (False, upipe_throw Aerror s1, Some u3)
                                         | Some b \<Rightarrow>
                                             Inr (True, s1\<lparr>systime_rap := rap\<rparr>,
                                                  Some (set_unchecked (uref_block_insert u3 b)
                                                          F_random VVoid))))))
                       else Inr (True, s1, Some u1)))
                else Inr (True, s1, Some u1))
           | _ \<Rightarrow> Inr (False, s1, Some u1)))"

subsection \<open>Handling a sequence header\<close>

definition frame_rate_from_code :: "urational list" where
  "frame_rate_from_code =
     [\<lparr>num = 0, den = 0\<rparr>,
      \<lparr>num = 24000, den = 1001\<rparr>,
      \<lparr>num = 24, den = 1\<rparr>,
      \<lparr>num = 25, den = 1\<rparr>,
      \<lparr>num = 30000, den = 1001\<rparr>,
      \<lparr>num = 30, den = 1\<rparr>,
      \<lparr>num = 50, den = 1\<rparr>,
      \<lparr>num = 60000, den = 1001\<rparr>,
      \<lparr>num = 60, den = 1\<rparr>,
      \<lparr>num = 15000, den = 1001\<rparr>,
      \<lparr>num = 5000, den = 1001\<rparr>,
      \<lparr>num = 10000, den = 1001\<rparr>,
      \<lparr>num = 12000, den = 1001\<rparr>,
      \<lparr>num = 15000, den = 1001\<rparr>,
      \<lparr>num = 0, den = 0\<rparr>,
      \<lparr>num = 0, den = 0\<rparr>]"

text \<open>Modelled from the spec: \<^verbatim>\<open>urational_simplify\<close> (upipe/ubase.h) is not among the sources;
  a rational is simplified by the greatest common divisor of its members.\<close>

definition urational_simplify :: "urational \<Rightarrow> urational" where
  "urational_simplify r =
     (let g = gcd (unat (num r)) (unat (den r))
      in (if g = 0 then r
          else \<lparr>num = of_nat (unat (num r) div g), den = of_nat (unat (den r) div g)\<rparr>))"

text \<open>Modelled from the spec: \<^verbatim>\<open>uref_pic_flow_add_plane\<close> is not among the sources; it adds a
  plane (horizontal and vertical subsampling, macropixel size, chroma) to the planes of
  the flow definition.\<close>

definition and_add_plane :: "bool \<times> uref \<Rightarrow> byte \<times> byte \<times> byte \<times> string \<Rightarrow> bool \<times> uref" where
  "and_add_plane ru plane =
     (if fst ru then
        (case attrs (snd ru) Pic_flow_planes of
           Some (VPlanes ps) \<Rightarrow> and_set ru Pic_flow_planes (VPlanes (ps @ [plane]))
         | _ \<Rightarrow> (False, snd ru))
      else ru)"

text \<open>\<^verbatim>\<open>upipe_mp2vf_extract_sequence\<close>, \<^verbatim>\<open>upipe_mp2vf_extract_extension\<close> and
  \<^verbatim>\<open>upipe_mp2vf_extract_display\<close>: the ubuf cut out of the frame and the offset behind it,
  or \<open>None\<close> (the C functions then throw \<^verbatim>\<open>aerror\<close>).\<close>

definition upipe_mp2vf_extract_sequence :: "uref \<Rightarrow> error + (ubuf \<times> nat) option" where
  "upipe_mp2vf_extract_sequence u =
     (case ubuf u of
        None \<Rightarrow> Inl Null_deref
      | Some b0 \<Rightarrow>
          Inr (case ubuf_dup b0 of
             None \<Rightarrow> None
           | Some b \<Rightarrow>
               (case ubuf_block_extract b 11 of
                  None \<Rightarrow> None
                | Some word1 \<Rightarrow>
                    (case (if word1 AND 2 \<noteq> 0
                           then map_option (\<lambda>w. (MP2VSEQ_HEADER_SIZE + 64, w))
                                  (ubuf_block_extract b (11 + 64))
                           else Some (MP2VSEQ_HEADER_SIZE, word1)) of
                       None \<Rightarrow> None
                     | Some (size1, word2) \<Rightarrow>
                         (let sequence_header_size =
                                (if word2 AND 1 \<noteq> 0 then size1 + 64 else size1)
                          in map_option (\<lambda>b'. (b', sequence_header_size))
                               (ubuf_block_resize b 0 sequence_header_size))))))"

definition upipe_mp2vf_extract_extension :: "uref \<Rightarrow> nat \<Rightarrow> error + (ubuf \<times> nat) option" where
  "upipe_mp2vf_extract_extension u offset =
     (case ubuf u of
        None \<Rightarrow> Inl Null_deref
      | Some b0 \<Rightarrow>
          Inr (case ubuf_dup b0 of
             None \<Rightarrow> None
           | Some b \<Rightarrow>
               map_option (\<lambda>b'. (b', offset + MP2VSEQX_HEADER_SIZE))
                 (ubuf_block_resize b offset MP2VSEQX_HEADER_SIZE)))"

definition upipe_mp2vf_extract_display :: "uref \<Rightarrow> nat \<Rightarrow> error + (ubuf \<times> nat) option" where
  "upipe_mp2vf_extract_display u offset =
     (case ubuf u of
        None \<Rightarrow> Inl Null_deref
      | Some b0 \<Rightarrow>
          Inr (case ubuf_dup b0 of
             None \<Rightarrow> None
           | Some b \<Rightarrow>
               (case ubuf_block_extract b offset of
                  None \<Rightarrow> None
                | Some word1 \<Rightarrow>
                    (let sequence_display_size = MP2VSEQDX_HEADER_SIZE +
                           (if word1 AND 1 \<noteq> 0 then MP2VSEQDX_COLOR_SIZE else 0)
                     in map_option (\<lambda>b'. (b', offset + sequence_display_size))
                          (ubuf_block_resize b offset sequence_display_size)))))"


text \<open>The local variables of \<^verbatim>\<open>upipe_mp2vf_parse_sequence\<close> that the sequence extension
  changes; \<open>ret_flow_def\<close> is \<^verbatim>\<open>ret\<close> with the flow definition under construction.\<close>

record sequence_locals =
  horizontal :: u16
  vertical :: u16
  bitrate :: u32
  vbvbuffer :: u32
  frame_rate :: urational
  ret_flow_def :: "bool \<times> uref"

text \<open>Lines 330 to 415: the sequence extension. \<open>None\<close> is \<^verbatim>\<open>return false\<close>.\<close>

definition parse_sequence_chroma :: "byte \<Rightarrow> bool \<times> uref \<Rightarrow> (bool \<times> uref) option" where
  "parse_sequence_chroma chroma r =
     (if chroma = MP2VSEQX_CHROMA_420 then
        Some (and_set (and_add_plane (and_add_plane r (2, 2, 1, ''u8'')) (2, 2, 1, ''v8''))
                F_def (VString ''block.mpeg2video.pic.planar8_420.''))
      else if chroma = MP2VSEQX_CHROMA_422 then
        Some (and_set (and_add_plane (and_add_plane r (2, 1, 1, ''u8'')) (2, 1, 1, ''v8''))
                F_def (VString ''block.mpeg2video.pic.planar8_422.''))
      else if chroma = MP2VSEQX_CHROMA_444 then
        Some (and_set (and_add_plane (and_add_plane r (1, 1, 1, ''u8'')) (1, 1, 1, ''v8''))
                F_def (VString ''block.mpeg2video.pic.planar8_444.''))
      else None)"

definition parse_sequence_level :: "byte \<Rightarrow> u64 option" where
  "parse_sequence_level profilelevel =
     (let level = profilelevel AND MP2VSEQX_LEVEL_MASK
      in (if level = MP2VSEQX_LEVEL_LOW then Some (4000000 div 8)
          else if level = MP2VSEQX_LEVEL_MAIN then Some (15000000 div 8)
          else if level = MP2VSEQX_LEVEL_HIGH1440 then Some (60000000 div 8)
          else if level = MP2VSEQX_LEVEL_HIGH then Some (80000000 div 8)
          else None))"

definition parse_sequence_ext ::
  "mp2v_accessors \<Rightarrow> upipe_mp2vf \<Rightarrow> sequence_locals \<Rightarrow> upipe_mp2vf \<times> sequence_locals option" where
  "parse_sequence_ext bs s l =
     (case sequence_ext s of
        None \<Rightarrow> (s\<lparr>progressive_sequence := False\<rparr>, Some l)
      | Some xb \<Rightarrow>
          (case ubuf_block_peek xb 0 MP2VSEQX_HEADER_SIZE of
             None \<Rightarrow> (upipe_throw Aerror s, None)
           | Some ext \<Rightarrow>
               (let profilelevel = mp2vseqx_get_profilelevel bs ext;
                    progressive = mp2vseqx_get_progressive bs ext;
                    chroma = mp2vseqx_get_chroma bs ext;
                    fr = urational_simplify
                           \<lparr>num = num (frame_rate l) * (ucast (mp2vseqx_get_frameraten bs ext) + 1),
                            den = den (frame_rate l) * (ucast (mp2vseqx_get_framerated bs ext) + 1)\<rparr>;
                    l1 = l\<lparr>horizontal := horizontal l OR
                                push_bit 12 (ucast (mp2vseqx_get_horizontal bs ext)),
                            vertical := vertical l OR
                                push_bit 12 (ucast (mp2vseqx_get_vertical bs ext)),
                            bitrate := bitrate l OR
                                push_bit 18 (ucast (mp2vseqx_get_bitrate bs ext)),
                            vbvbuffer := vbvbuffer l OR
                                push_bit 10 (ucast (mp2vseqx_get_vbvbuffer bs ext)),
                            frame_rate := fr\<rparr>;
                    r1 = and_set (ret_flow_def l) Mp2v_flow_profilelevel
                           (VSmall_unsigned profilelevel)
                in (case parse_sequence_level profilelevel of
                      None \<Rightarrow> (s, None)
                    | Some max_octetrate \<Rightarrow>
                        (let r2 = and_set r1 Block_flow_max_octetrate (VUnsigned max_octetrate);
                             r3 = (if progressive then and_set r2 P_progressive VVoid else r2);
                             s1 = s\<lparr>progressive_sequence := progressive\<rparr>;
                             r4 = and_set r3 Pic_flow_macropixel (VSmall_unsigned 1);
                             r5 = and_set r4 Pic_flow_planes (VPlanes []);
                             r6 = and_add_plane r5 (1, 1, 1, ''y8'')
                         in (case parse_sequence_chroma chroma r6 of
                               None \<Rightarrow> (s1, None)
                             | Some r7 \<Rightarrow>
                                 (s1, Some (l1\<lparr>ret_flow_def :=
                                    (if mp2vseqx_get_lowdelay bs ext
                                     then and_set r7 Mp2v_flow_lowdelay VVoid else r7)\<rparr>))))))))"

text \<open>Lines 419 to 443: the sample aspect ratio.\<close>

definition parse_sequence_aspect :: "byte \<Rightarrow> u16 \<Rightarrow> u16 \<Rightarrow> urational option" where
  "parse_sequence_aspect aspect h v =
     (if aspect = MP2VSEQ_ASPECT_SQUARE then Some \<lparr>num = 1, den = 1\<rparr>
      else if aspect = MP2VSEQ_ASPECT_4_3 then
        Some (urational_simplify \<lparr>num = ucast v * 4, den = ucast h * 3\<rparr>)
      else if aspect = MP2VSEQ_ASPECT_16_9 then
        Some (urational_simplify \<lparr>num = ucast v * 16, den = ucast h * 9\<rparr>)
      else if aspect = MP2VSEQ_ASPECT_2_21 then
        Some (urational_simplify \<lparr>num = ucast v * 221, den = ucast h * 100\<rparr>)
      else None)"

text \<open>Lines 451 to 476: the sequence display extension.\<close>

definition parse_sequence_display ::
  "mp2v_accessors \<Rightarrow> upipe_mp2vf \<Rightarrow> bool \<times> uref \<Rightarrow> (bool \<times> uref) option" where
  "parse_sequence_display bs s r =
     (case sequence_display s of
        None \<Rightarrow> Some r
      | Some db \<Rightarrow>
          (case ubuf_block_peek db 0 (length (octets db)) of
             None \<Rightarrow> None
           | Some display \<Rightarrow>
               Some (and_set
                 (and_set r P_hsizevis (VUnsigned (ucast (mp2vseqdx_get_horizontal bs display))))
                 P_vsizevis (VUnsigned (ucast (mp2vseqdx_get_vertical bs display))))))"

text \<open>Lines 417 to 483, from the locals as the sequence extension left them.\<close>

definition parse_sequence_finish ::
  "mp2v_accessors \<Rightarrow> upipe_mp2vf \<Rightarrow> byte \<Rightarrow> sequence_locals \<Rightarrow> error + (bool \<times> upipe_mp2vf)" where
  "parse_sequence_finish bs s1 aspect l =
     (let r1 = and_set (ret_flow_def l) P_hsize (VUnsigned (ucast (horizontal l)));
          r2 = and_set r1 P_vsize (VUnsigned (ucast (vertical l)))
      in (case parse_sequence_aspect aspect (horizontal l) (vertical l) of
            None \<Rightarrow> Inr (False, s1)
          | Some sar \<Rightarrow>
              (let r3 = and_set r2 P_aspect (VRational sar);
                   r4 = and_set r3 Pic_flow_fps (VRational (frame_rate l));
                   s2 = s1\<lparr>fps := frame_rate l\<rparr>;
                   r5 = and_set r4 Block_flow_octetrate
                          (VUnsigned (ucast (bitrate l * 400 div 8)));
                   r6 = and_set r5 Block_flow_cpb_buffer
                          (VUnsigned (ucast (vbvbuffer l * 16 * 1024 div 8)))
               in (case parse_sequence_display bs s2 r6 of
                     None \<Rightarrow> Inr (False, upipe_throw Aerror s2)
                   | Some r7 \<Rightarrow>
                       (if \<not> fst r7 then Inr (False, upipe_throw Aerror s2)
                        else Inr (True, upipe_mp2vf_store_flow_def s2 (Some (snd r7))))))))"

definition upipe_mp2vf_parse_sequence ::
  "mp2v_accessors \<Rightarrow> upipe_mp2vf \<Rightarrow> error + (bool \<times> upipe_mp2vf)" where
  "upipe_mp2vf_parse_sequence bs s =
     (case sequence_header s of
        None \<Rightarrow> Inl Null_deref
      | Some hb \<Rightarrow>
          (case ubuf_block_peek hb 0 MP2VSEQ_HEADER_SIZE of
             None \<Rightarrow> Inr (False, upipe_throw Aerror s)
           | Some sequence \<Rightarrow>
               (let framerate = mp2vseq_get_framerate bs sequence
                in (if length frame_rate_from_code \<le> unat framerate then Inl Out_of_bounds
                    else if num (frame_rate_from_code ! unat framerate) = 0 then Inr (False, s)
                    else
                      (case flow_def_input s of
                         None \<Rightarrow> Inl Null_deref
                       | Some fdi \<Rightarrow>
                           (case uref_dup fdi of
                              None \<Rightarrow> Inr (False, upipe_throw Aerror s)
                            | Some fd \<Rightarrow>
                                (case parse_sequence_ext bs s
                                        \<lparr>horizontal = mp2vseq_get_horizontal bs sequence,
                                         vertical = mp2vseq_get_vertical bs sequence,
                                         bitrate = mp2vseq_get_bitrate bs sequence,
                                         vbvbuffer = mp2vseq_get_vbvbuffer bs sequence,
                                         frame_rate = frame_rate_from_code ! unat framerate,
                                         ret_flow_def = (True, fd)\<rparr> of
                                   (s1, None) \<Rightarrow> Inr (False, s1)
                                 | (s1, Some l) \<Rightarrow>
                                     parse_sequence_finish bs s1
                                       (mp2vseq_get_aspect bs sequence) l)))))))"

text \<open>\<^verbatim>\<open>upipe_mp2vf_handle_sequence\<close>. First the three structures are cut out of the frame
  (lines 603 to 634): \<open>handle_sequence_extract\<close> gives them, or \<open>None\<close> where the C
  function returns false, with a flag that tells whether \<^verbatim>\<open>aerror\<close> was thrown. Then they
  replace the cached ones; the header is parsed unless the three are identical to the
  cached ones.\<close>

definition handle_sequence_extract ::
  "uref \<Rightarrow> error + (bool \<times> (ubuf \<times> ubuf option \<times> ubuf option) option)" where
  "handle_sequence_extract u =
     (case upipe_mp2vf_extract_sequence u of
        Inl e \<Rightarrow> Inl e
      | Inr None \<Rightarrow> Inr (True, None)
      | Inr (Some (sh, ext_offset)) \<Rightarrow>
          (case upipe_mp2vf_find_ext u ext_offset of
             None \<Rightarrow> Inr (False, Some (sh, None, None))
           | Some (ext_offset1, ext_header) \<Rightarrow>
               (if ext_header \<noteq> MP2VX_ID_SEQX then Inr (False, None)
                else
                  (case upipe_mp2vf_extract_extension u ext_offset1 of
                     Inl e \<Rightarrow> Inl e
                   | Inr None \<Rightarrow> Inr (True, None)
                   | Inr (Some (sx, ext_offset2)) \<Rightarrow>
                       (case upipe_mp2vf_find_ext u ext_offset2 of
                          None \<Rightarrow> Inr (False, Some (sh, Some sx, None))
                        | Some (ext_offset3, ext_header3) \<Rightarrow>
                            (if ext_header3 = MP2VX_ID_SEQDX then
                               (case upipe_mp2vf_extract_display u ext_offset3 of
                                  Inl e \<Rightarrow> Inl e
                                | Inr None \<Rightarrow> Inr (True, None)
                                | Inr (Some (sd, ext_offset4)) \<Rightarrow>
                                    Inr (False, Some (sh, Some sx, Some sd)))
                             else Inr (False, Some (sh, Some sx, None))))))))"

definition same_cached :: "ubuf option \<Rightarrow> ubuf option \<Rightarrow> bool" where
  "same_cached cached new =
     (case (cached, new) of
        (None, None) \<Rightarrow> True
      | (Some c, Some n) \<Rightarrow> ubuf_block_compare n c
      | _ \<Rightarrow> False)"

definition upipe_mp2vf_handle_sequence ::
  "mp2v_accessors \<Rightarrow> upipe_mp2vf \<Rightarrow> uref \<Rightarrow> error + (bool \<times> upipe_mp2vf)" where
  "upipe_mp2vf_handle_sequence bs s u =
     (case handle_sequence_extract u of
        Inl e \<Rightarrow> Inl e
      | Inr (aerror, None) \<Rightarrow> Inr (False, if aerror then upipe_throw Aerror s else s)
      | Inr (aerror, Some (sh, sx, sd)) \<Rightarrow>
          (let s' = s\<lparr>sequence_header := Some sh, sequence_ext := sx, sequence_display := sd\<rparr>
           in (if (case sequence_header s of
                     None \<Rightarrow> False
                   | Some c \<Rightarrow> ubuf_block_compare sh c) \<and>
                  same_cached (sequence_ext s) sx \<and> same_cached (sequence_display s) sd
               then Inr (True, s')
               else upipe_mp2vf_parse_sequence bs s')))"


subsection \<open>Output of a frame\<close>

definition upipe_mp2vf_output_frame ::
  "mp2v_accessors \<Rightarrow> upipe_mp2vf \<Rightarrow> error + (bool \<times> upipe_mp2vf)" where
  "upipe_mp2vf_output_frame bs s =
     (case next_uref s of
        None \<Rightarrow> Inl Null_deref
      | Some nu \<Rightarrow>
          (case (case uref_dup nu of
                   None \<Rightarrow> None
                 | Some d \<Rightarrow> uref_block_resize d 0 (next_frame_size s)) of
             None \<Rightarrow> Inr (True, upipe_throw Aerror s)
           | Some u \<Rightarrow>
               (case (if next_frame_sequence s then upipe_mp2vf_handle_sequence bs s u
                      else Inr (True, s)) of
                  Inl e \<Rightarrow> Inl e
                | Inr (False, s1) \<Rightarrow> Inr (False, s1)
                | Inr (True, s1) \<Rightarrow>
                    (case upipe_mp2vf_handle_picture bs s1 u of
                       Inl e \<Rightarrow> Inl e
                     | Inr (False, s2, uo) \<Rightarrow> Inr (False, s2)
                     | Inr (True, s2, None) \<Rightarrow> Inl Use_after_free
                     | Inr (True, s2, Some u2) \<Rightarrow>
                         Inr (True, upipe_mp2vf_output s2
                                (if systime_rap s2 \<noteq> UINT64_MAX
                                 then set_unchecked u2 K_systime_rap (VUnsigned (systime_rap s2))
                                 else u2))))))"

subsection \<open>The octet stream\<close>

text \<open>Modelled from the spec: \<^verbatim>\<open>UPIPE_HELPER_OCTET_STREAM\<close> is not among the sources. The helper
  presents the queue of input urefs as one logical byte stream: the ubuf of \<open>next_uref\<close>
  holds every octet not yet consumed, \<open>next_uref_size\<close> of them belong to \<open>next_uref\<close>
  itself and the others to the urefs queued behind it. \<^verbatim>\<open>append\<close> promotes the uref when
  there is no \<open>next_uref\<close> and queues it otherwise; \<^verbatim>\<open>consume\<close> trims octets from the front
  and, when \<open>next_uref\<close> is fully consumed, promotes the head of the queue; the hook
  \<^verbatim>\<open>upipe_mp2vf_promote_uref\<close> runs at every promotion.\<close>

definition upipe_mp2vf_init_octet_stream :: "upipe_mp2vf \<Rightarrow> upipe_mp2vf" where
  "upipe_mp2vf_init_octet_stream s = s\<lparr>next_uref := None, urefs := []\<rparr>"

definition upipe_mp2vf_clean_octet_stream :: "upipe_mp2vf \<Rightarrow> upipe_mp2vf" where
  "upipe_mp2vf_clean_octet_stream s = s\<lparr>next_uref := None, urefs := []\<rparr>"

definition uref_block_append :: "uref \<Rightarrow> uref \<Rightarrow> uref" where
  "uref_block_append nu u =
     (case (ubuf nu, ubuf u) of
        (Some b, Some b') \<Rightarrow> nu\<lparr>ubuf := Some (b\<lparr>octets := octets b @ octets b'\<rparr>)\<rparr>
      | _ \<Rightarrow> nu)"

definition upipe_mp2vf_append_octet_stream :: "upipe_mp2vf \<Rightarrow> uref \<Rightarrow> upipe_mp2vf" where
  "upipe_mp2vf_append_octet_stream s u =
     (case next_uref s of
        None \<Rightarrow>
          upipe_mp2vf_promote_uref (s\<lparr>next_uref := Some u, next_uref_size := uref_block_size u\<rparr>)
      | Some nu \<Rightarrow> s\<lparr>next_uref := Some (uref_block_append nu u), urefs := urefs s @ [u]\<rparr>)"

definition uref_block_trim :: "uref \<Rightarrow> nat \<Rightarrow> uref" where
  "uref_block_trim u n =
     (case ubuf u of
        None \<Rightarrow> u
      | Some b \<Rightarrow> u\<lparr>ubuf := Some (b\<lparr>octets := drop n (octets b)\<rparr>)\<rparr>)"

fun octet_stream_consume :: "uref list \<Rightarrow> upipe_mp2vf \<Rightarrow> nat \<Rightarrow> upipe_mp2vf" where
  "octet_stream_consume [] s n =
     (case next_uref s of
        None \<Rightarrow> s
      | Some nu \<Rightarrow>
          (if n < next_uref_size s
           then s\<lparr>next_uref := Some (uref_block_trim nu n), next_uref_size := next_uref_size s - n\<rparr>
           else s\<lparr>next_uref := None, urefs := []\<rparr>))"
| "octet_stream_consume (h # q) s n =
     (case next_uref s of
        None \<Rightarrow> s
      | Some nu \<Rightarrow>
          (if n < next_uref_size s
           then s\<lparr>next_uref := Some (uref_block_trim nu n), next_uref_size := next_uref_size s - n\<rparr>
           else octet_stream_consume q
                  (upipe_mp2vf_promote_uref
                     (s\<lparr>next_uref := Some (h\<lparr>ubuf := ubuf (uref_block_trim nu (next_uref_size s))\<rparr>),
                        next_uref_size := uref_block_size h,
                        urefs := q\<rparr>))
                  (n - next_uref_size s)))"

definition upipe_mp2vf_consume_octet_stream :: "upipe_mp2vf \<Rightarrow> nat \<Rightarrow> upipe_mp2vf" where
  "upipe_mp2vf_consume_octet_stream s n = octet_stream_consume (urefs s) s n"

subsection \<open>The scan for start codes\<close>

text \<open>\<^verbatim>\<open>upipe_mp2vf_find\<close>: the next start code prefix from \<open>next_frame_size\<close> on, and the
  octet after it. \<^verbatim>\<open>uref_block_find\<close> moves \<open>next_frame_size\<close> to the prefix it finds; where
  it finds none the spec does not say what it leaves there, and the model leaves
  \<open>next_frame_size\<close> as it was.\<close>

definition upipe_mp2vf_find :: "upipe_mp2vf \<Rightarrow> upipe_mp2vf \<times> byte option" where
  "upipe_mp2vf_find s =
     (case next_uref s of
        None \<Rightarrow> (s, None)
      | Some nu \<Rightarrow>
          (case uref_block_find nu (next_frame_size s) FIND_START of
             None \<Rightarrow> (s, None)
           | Some found \<Rightarrow> (s\<lparr>next_frame_size := found\<rparr>, uref_block_extract nu (found + 3))))"

definition add4 :: "upipe_mp2vf \<Rightarrow> upipe_mp2vf" where
  "add4 s = s\<lparr>next_frame_size := next_frame_size s + 4\<rparr>"

definition reset_next_frame :: "upipe_mp2vf \<Rightarrow> upipe_mp2vf" where
  "reset_next_frame s =
     s\<lparr>next_frame_sequence := False, next_frame_offset := - 1, next_frame_slice := False\<rparr>"

text \<open>Lines 1017 to 1032 of \<^verbatim>\<open>upipe_mp2vf_work\<close>: the start code that ended a frame opens
  the next one.\<close>

definition open_next_frame :: "upipe_mp2vf \<Rightarrow> byte \<Rightarrow> upipe_mp2vf" where
  "open_next_frame s start =
     (if start = MP2VSEQ_START_CODE then s\<lparr>next_frame_sequence := True\<rparr>
      else if start = MP2VGOP_START_CODE then s
      else if start = MP2VPIC_START_CODE then s\<lparr>next_frame_offset := 0\<rparr>
      else if start = MP2VEND_START_CODE then upipe_mp2vf_sync_lost (s\<lparr>next_frame_size := 0\<rparr>)
      else upipe_mp2vf_sync_lost s)"

text \<open>Lines 1001 to 1016: the frame is output and consumed.\<close>

definition work_output ::
  "mp2v_accessors \<Rightarrow> upipe_mp2vf \<Rightarrow> byte \<Rightarrow> error + upipe_mp2vf" where
  "work_output bs s start =
     (case upipe_mp2vf_output_frame bs s of
        Inl e \<Rightarrow> Inl e
      | Inr (False, s1) \<Rightarrow>
          Inr (reset_next_frame
                 (upipe_mp2vf_sync_lost
                    ((upipe_mp2vf_consume_octet_stream s1 (next_frame_size s1))
                       \<lparr>next_frame_size := 0\<rparr>)))
      | Inr (True, s1) \<Rightarrow>
          Inr (open_next_frame
                 ((reset_next_frame (upipe_mp2vf_consume_octet_stream s1 (next_frame_size s1)))
                    \<lparr>next_frame_size := 4\<rparr>)
                 start))"

text \<open>One turn of the loop of \<^verbatim>\<open>upipe_mp2vf_work\<close>, entered with a \<open>next_uref\<close>. The flag
  is false where the C function returns.\<close>

definition work_step :: "mp2v_accessors \<Rightarrow> upipe_mp2vf \<Rightarrow> error + (bool \<times> upipe_mp2vf)" where
  "work_step bs s =
     (case upipe_mp2vf_find s of
        (s1, None) \<Rightarrow> Inr (False, s1)
      | (s1, Some start) \<Rightarrow>
          (if \<not> acquired s1 then
             (let s2 = (upipe_mp2vf_consume_octet_stream s1 (next_frame_size s1))
                         \<lparr>next_frame_size := 0\<rparr>
              in Inr (True, add4
                   (if start = MP2VPIC_START_CODE
                      then upipe_mp2vf_flush_dts (upipe_mp2vf_flush_pts s2)
                    else if start = MP2VSEQ_START_CODE
                      then (upipe_mp2vf_sync_acquired s2)\<lparr>next_frame_sequence := True\<rparr>
                    else s2)))
           else if next_frame_offset s1 = - 1 then
             Inr (True, add4
                  (if start = MP2VPIC_START_CODE
                   then s1\<lparr>next_frame_offset := int (next_frame_size s1)\<rparr> else s1))
           else if start = MP2VX_START_CODE then Inr (True, add4 s1)
           else if MP2VPIC_START_CODE < start \<and> start \<le> MP2VPIC_LAST_CODE then
             Inr (True, add4 (s1\<lparr>next_frame_slice := True\<rparr>))
           else
             map_sum id (Pair True)
               (work_output bs (if start = MP2VEND_START_CODE then add4 s1 else s1) start)))"


text \<open>\<^verbatim>\<open>upipe_mp2vf_work\<close>: the loop runs while there is a \<open>next_uref\<close>.\<close>

function upipe_mp2vf_work :: "mp2v_accessors \<Rightarrow> upipe_mp2vf \<Rightarrow> error + upipe_mp2vf" where
  "upipe_mp2vf_work bs s =
     (case next_uref s of
        None \<Rightarrow> Inr s
      | Some nu \<Rightarrow>
          (case work_step bs s of
             Inl e \<Rightarrow> Inl e
           | Inr r \<Rightarrow> if fst r then upipe_mp2vf_work bs (snd r) else Inr (snd r)))"
  by pat_completeness auto

text \<open>The octets of the stream that the scan has not passed yet. They decrease at every
  turn of the loop but one, the turn on which a frame is refused with no octet consumed;
  that turn loses the synchronisation.\<close>

definition stream_size :: "upipe_mp2vf \<Rightarrow> nat" where
  "stream_size s = (case next_uref s of None \<Rightarrow> 0 | Some u \<Rightarrow> uref_block_size u)"

definition stream_left :: "upipe_mp2vf \<Rightarrow> nat" where
  "stream_left s = stream_size s - next_frame_size s"

text \<open>What the parsing of a frame leaves alone: the octet stream, the scan and the
  flags of the frame under construction.\<close>

definition same_scan :: "upipe_mp2vf \<Rightarrow> upipe_mp2vf \<Rightarrow> bool" where
  "same_scan s s' \<longleftrightarrow>
     next_uref s' = next_uref s \<and> next_uref_size s' = next_uref_size s \<and>
     urefs s' = urefs s \<and> next_frame_size s' = next_frame_size s \<and>
     next_frame_sequence s' = next_frame_sequence s \<and>
     next_frame_offset s' = next_frame_offset s \<and>
     next_frame_slice s' = next_frame_slice s \<and>
     acquired s' = acquired s \<and> got_discontinuity s' = got_discontinuity s \<and>
     insert_sequence s' = insert_sequence s \<and> flow_def_input s' = flow_def_input s"

subsection \<open>Input and allocation\<close>

definition EXPECTED_FLOW_DEF :: string where
  "EXPECTED_FLOW_DEF = ''block.mpeg2video.''"

text \<open>Lines 1077 to 1086 of \<^verbatim>\<open>upipe_mp2vf_input\<close>: an input uref that carries \<^verbatim>\<open>f.disc\<close>.
  \<^verbatim>\<open>uref_flow_set_error\<close> on a null \<open>next_uref\<close> is undefined in C.\<close>

definition input_discontinuity :: "upipe_mp2vf \<Rightarrow> error + upipe_mp2vf" where
  "input_discontinuity s =
     (if \<not> next_frame_slice s then
        Inr ((upipe_mp2vf_init_octet_stream (upipe_mp2vf_clean_octet_stream s))
               \<lparr>got_discontinuity := True\<rparr>)
      else
        (case next_uref s of
           None \<Rightarrow> Inl Null_deref
         | Some nu \<Rightarrow> Inr (s\<lparr>next_uref := Some (set_unchecked nu F_error VVoid)\<rparr>)))"

definition upipe_mp2vf_input ::
  "mp2v_accessors \<Rightarrow> upipe_mp2vf \<Rightarrow> uref \<Rightarrow> error + upipe_mp2vf" where
  "upipe_mp2vf_input bs s u =
     (case attrs u F_def of
        Some (VString def) \<Rightarrow>
          (if take (length EXPECTED_FLOW_DEF) def \<noteq> EXPECTED_FLOW_DEF then
             Inr (upipe_throw Flow_def_error
                    (upipe_mp2vf_store_flow_def (s\<lparr>flow_def_input := None\<rparr>) None))
           else
             (let s1 = s\<lparr>flow_def_input := Some u\<rparr>
              in (if sequence_header s1 \<noteq> None
                  then map_sum id snd (upipe_mp2vf_parse_sequence bs s1)
                  else Inr s1)))
      | _ \<Rightarrow>
          (if flow_def_input s = None then Inr (upipe_throw Flow_def_error s)
           else if ubuf u = None then Inr s
           else
             (case (if attrs u F_disc \<noteq> None then input_discontinuity s else Inr s) of
                Inl e \<Rightarrow> Inl e
              | Inr s1 \<Rightarrow> upipe_mp2vf_work bs (upipe_mp2vf_append_octet_stream s1 u))))"

text \<open>\<^verbatim>\<open>upipe_mp2vf_alloc\<close>. The members \<open>progressive_sequence\<close> and \<open>fps\<close> are not
  initialised by the C function: what they hold is an argument.\<close>

definition upipe_mp2vf_alloc :: "bool \<Rightarrow> urational \<Rightarrow> upipe_mp2vf" where
  "upipe_mp2vf_alloc uninit_progressive uninit_fps =
     \<lparr>flow_def = None, flow_def_sent = False, flow_def_input = None,
      systime_rap = UINT64_MAX, last_picture_number = 0, last_temporal_reference = - 1,
      got_discontinuity = False, insert_sequence = False,
      sequence_header = None, sequence_ext = None, sequence_display = None,
      progressive_sequence = uninit_progressive, fps = uninit_fps,
      next_uref = None, next_uref_size = 0, urefs = [],
      next_frame_size = 0, next_frame_sequence = False, next_frame_offset = - 1,
      next_frame_slice = False,
      next_frame_pts_orig = UINT64_MAX, next_frame_pts = UINT64_MAX,
      next_frame_pts_sys = UINT64_MAX,
      next_frame_dts_orig = UINT64_MAX, next_frame_dts = UINT64_MAX,
      next_frame_dts_sys = UINT64_MAX,
      acquired = False, sent = [], events = [Ready]\<rparr>"

subsection \<open>An instance of the header accessors\<close>

text \<open>The bit layout of the headers in ISO/IEC 13818-2, section 6.2, from the first octet
  of the start code. The theorems about the framer hold for every choice of accessors;
  this one runs the model on concrete streams.\<close>

definition iso13818_2 :: mp2v_accessors where
  "iso13818_2 =
     \<lparr>mp2vseq_get_horizontal = (\<lambda>p. push_bit 4 (ucast (p ! 4)) OR drop_bit 4 (ucast (p ! 5))),
      mp2vseq_get_vertical = (\<lambda>p. push_bit 8 (ucast (p ! 5 AND 0x0F)) OR ucast (p ! 6)),
      mp2vseq_get_aspect = (\<lambda>p. drop_bit 4 (p ! 7)),
      mp2vseq_get_framerate = (\<lambda>p. p ! 7 AND 0x0F),
      mp2vseq_get_bitrate = (\<lambda>p. push_bit 10 (ucast (p ! 8)) OR push_bit 2 (ucast (p ! 9)) OR
                                    drop_bit 6 (ucast (p ! 10))),
      mp2vseq_get_vbvbuffer = (\<lambda>p. push_bit 5 (ucast (p ! 10 AND 0x1F)) OR
                                      drop_bit 3 (ucast (p ! 11))),
      mp2vseqx_get_profilelevel = (\<lambda>p. push_bit 4 (p ! 4) OR drop_bit 4 (p ! 5)),
      mp2vseqx_get_progressive = (\<lambda>p. p ! 5 AND 0x08 \<noteq> 0),
      mp2vseqx_get_chroma = (\<lambda>p. drop_bit 1 (p ! 5 AND 0x06)),
      mp2vseqx_get_horizontal = (\<lambda>p. push_bit 1 (p ! 5 AND 0x01) OR drop_bit 7 (p ! 6)),
      mp2vseqx_get_vertical = (\<lambda>p. drop_bit 5 (p ! 6 AND 0x60)),
      mp2vseqx_get_bitrate = (\<lambda>p. push_bit 7 (ucast (p ! 6 AND 0x1F)) OR drop_bit 1 (ucast (p ! 7))),
      mp2vseqx_get_vbvbuffer = (\<lambda>p. p ! 8),
      mp2vseqx_get_lowdelay = (\<lambda>p. p ! 9 AND 0x80 \<noteq> 0),
      mp2vseqx_get_frameraten = (\<lambda>p. drop_bit 5 (p ! 9 AND 0x60)),
      mp2vseqx_get_framerated = (\<lambda>p. p ! 9 AND 0x1F),
      mp2vseqdx_get_horizontal = (\<lambda>p. push_bit 6 (ucast (p ! 5)) OR drop_bit 2 (ucast (p ! 6))),
      mp2vseqdx_get_vertical = (\<lambda>p. push_bit 13 (ucast (p ! 6 AND 0x01)) OR
                                       push_bit 5 (ucast (p ! 7)) OR drop_bit 3 (ucast (p ! 8))),
      mp2vgop_get_closedgop = (\<lambda>p. p ! 7 AND 0x40 \<noteq> 0),
      mp2vgop_get_brokenlink = (\<lambda>p. p ! 7 AND 0x20 \<noteq> 0),
      mp2vpic_get_temporalreference = (\<lambda>p. push_bit 2 (ucast (p ! 4)) OR drop_bit 6 (ucast (p ! 5))),
      mp2vpic_get_codingtype = (\<lambda>p. drop_bit 3 (p ! 5 AND 0x38)),
      mp2vpic_get_vbvdelay = (\<lambda>p. push_bit 13 (ucast (p ! 5 AND 0x07)) OR
                                     push_bit 5 (ucast (p ! 6)) OR drop_bit 3 (ucast (p ! 7))),
      mp2vpicx_get_intradc = (\<lambda>p. drop_bit 2 (p ! 6 AND 0x0C)),
      mp2vpicx_get_structure = (\<lambda>p. p ! 6 AND 0x03),
      mp2vpicx_get_tff = (\<lambda>p. p ! 7 AND 0x80 \<noteq> 0),
      mp2vpicx_get_rff = (\<lambda>p. p ! 7 AND 0x02 \<noteq> 0),
      mp2vpicx_get_progressive = (\<lambda>p. p ! 8 AND 0x80 \<noteq> 0)\<rparr>"

text \<open>Sample data: a uref with no attribute that carries the given octets, and a pipe
  that has acquired the synchronisation at 25 frames per second.\<close>

definition sample_uref :: "byte list \<Rightarrow> uref" where
  "sample_uref bytes =
     \<lparr>attrs = (\<lambda>k. None),
      ubuf = Some \<lparr>octets = bytes, ubuf_dup_refused = False\<rparr>,
      attr_refused = (\<lambda>k. False),
      uref_dup_refused = False\<rparr>"

definition sample_pipe :: upipe_mp2vf where
  "sample_pipe =
     (upipe_mp2vf_alloc False \<lparr>num = 25, den = 1\<rparr>)
       \<lparr>acquired := True, flow_def_input := Some (sample_uref [])\<rparr>"

text \<open>A picture header (temporal reference 2, coding type I, no \<^verbatim>\<open>vbv_delay\<close>) and a
  picture coding extension (frame picture, top field first, repeat first field).\<close>

definition sample_picture :: "byte list" where
  "sample_picture = [0x00, 0x00, 0x01, 0x00, 0x00, 0x8F, 0xFF, 0xF8]"

definition sample_picture_ext :: "byte list" where
  "sample_picture_ext = [0x00, 0x00, 0x01, 0xB5, 0x8F, 0xFF, 0xF3, 0x82, 0x80]"

definition sample_slice :: "byte list" where
  "sample_slice = [0x00, 0x00, 0x01, 0x01, 0x12, 0x34]"


subsection \<open>Notions used to state the properties of the framer\<close>

text \<open>The attributes written by the three stages of \<^verbatim>\<open>upipe_mp2vf_parse_picture\<close>, the
  registers of the next frame, the duration rule of the specification, and a sample frame.\<close>

definition clock_keys :: "ukey set" where
  "clock_keys = {K_pts_orig, K_pts, K_pts_sys, K_dts_orig, K_dts, K_dts_sys}"

definition ext_keys :: "ukey set" where
  "ext_keys = {P_tf, P_bf, P_tff, K_duration, P_progressive}"

definition header_keys :: "ukey set" where
  "header_keys = {P_num, Mp2v_type, K_vbvdelay}"

definition same_registers :: "upipe_mp2vf \<Rightarrow> upipe_mp2vf \<Rightarrow> bool" where
  "same_registers s t \<longleftrightarrow>
     next_frame_pts_orig t = next_frame_pts_orig s \<and> next_frame_pts t = next_frame_pts s \<and>
     next_frame_pts_sys t = next_frame_pts_sys s \<and> next_frame_dts_orig t = next_frame_dts_orig s \<and>
     next_frame_dts t = next_frame_dts s \<and> next_frame_dts_sys t = next_frame_dts_sys s"

definition spec_duration :: "bool \<Rightarrow> byte \<Rightarrow> bool \<Rightarrow> bool \<Rightarrow> u64 \<Rightarrow> u64 \<Rightarrow> bool" where
  "spec_duration progressive_seq structure tff rff base d \<longleftrightarrow>
     (progressive_seq \<and> rff \<longrightarrow> d = base * (1 + (if tff then 1 else 0))) \<and>
     (progressive_seq \<and> \<not> rff \<longrightarrow> d = base) \<and>
     (\<not> progressive_seq \<and> structure = MP2VPICX_FRAME_PICTURE \<and> rff \<longrightarrow> d = base + base div 2) \<and>
     (\<not> progressive_seq \<and> structure = MP2VPICX_FRAME_PICTURE \<and> \<not> rff \<longrightarrow> d = base) \<and>
     (\<not> progressive_seq \<and>
        (structure = MP2VPICX_TOP_FIELD \<or> structure = MP2VPICX_BOTTOM_FIELD) \<longrightarrow> d = base div 2)"

definition sample_frame :: uref where
  "sample_frame = sample_uref (sample_picture @ sample_picture_ext @ sample_slice)"

definition sample_pipe0 :: upipe_mp2vf where
  "sample_pipe0 = sample_pipe\<lparr>next_frame_offset := 0, next_frame_dts := 1000, next_frame_pts := 5000\<rparr>"

definition no_dts :: "uref \<Rightarrow> bool" where
  "no_dts u \<longleftrightarrow> attrs u K_dts_orig = None \<and> attrs u K_dts = None \<and> attrs u K_dts_sys = None"

definition dts_absent :: "upipe_mp2vf \<Rightarrow> bool" where
  "dts_absent s \<longleftrightarrow>
     next_frame_dts_orig s = UINT64_MAX \<and> next_frame_dts s = UINT64_MAX \<and>
     next_frame_dts_sys s = UINT64_MAX"

definition dts_inv :: "upipe_mp2vf \<Rightarrow> bool" where
  "dts_inv s \<longleftrightarrow>
     dts_absent s \<and> (\<forall>u. next_uref s = Some u \<longrightarrow> no_dts u) \<and>
     (\<forall>u \<in> set (urefs s). no_dts u) \<and> (\<forall>u. flow_def s = Some u \<longrightarrow> no_dts u) \<and>
     (\<forall>u. flow_def_input s = Some u \<longrightarrow> no_dts u) \<and> (\<forall>u \<in> set (sent s). no_dts u)"

definition dts_keys :: "ukey set" where
  "dts_keys = {K_dts_orig, K_dts, K_dts_sys}"

text \<open>What the parsing functions leave alone besides the scan.\<close>

definition same_flow :: "upipe_mp2vf \<Rightarrow> upipe_mp2vf \<Rightarrow> bool" where
  "same_flow s s' \<longleftrightarrow> flow_def s' = flow_def s \<and> sent s' = sent s"

fun upipe_mp2vf_inputs ::
  "mp2v_accessors \<Rightarrow> upipe_mp2vf \<Rightarrow> uref list \<Rightarrow> error + upipe_mp2vf" where
  "upipe_mp2vf_inputs bs s [] = Inr s"
| "upipe_mp2vf_inputs bs s (u # us) =
     (case upipe_mp2vf_input bs s u of
        Inl e \<Rightarrow> Inl e
      | Inr s' \<Rightarrow> upipe_mp2vf_inputs bs s' us)"

definition sample_sequence :: "byte list" where
  "sample_sequence = [0x00, 0x00, 0x01, 0xB3, 0x2D, 0x02, 0x40, 0x13, 0xFF, 0xFF, 0xE0, 0x18]"

definition sample_flow_def :: uref where
  "sample_flow_def =
     \<lparr>attrs = (\<lambda>k. None)(F_def \<mapsto> VString ''block.mpeg2video.''),
      ubuf = None, attr_refused = (\<lambda>k. False), uref_dup_refused = False\<rparr>"

definition sample_stream :: "uref list" where
  "sample_stream =
     [sample_flow_def,
      sample_uref (sample_sequence @ sample_picture @ sample_slice @ sample_picture)]"

subsection \<open>Notions used to state the propagation of the timestamps\<close>

text \<open>Two observations on a turn of the loop of \<^verbatim>\<open>upipe_mp2vf_work\<close> that takes the pipe
  from \<open>s\<close> to \<open>s'\<close>: the turn has sent urefs downstream, and the turn has promoted an
  input uref (the octet stream helper pops the queue \<open>urefs\<close> when it promotes).\<close>

definition sends :: "upipe_mp2vf \<Rightarrow> upipe_mp2vf \<Rightarrow> bool" where
  "sends s s' \<longleftrightarrow> length (sent s') \<noteq> length (sent s)"

definition promotes :: "upipe_mp2vf \<Rightarrow> upipe_mp2vf \<Rightarrow> bool" where
  "promotes s s' \<longleftrightarrow> length (urefs s') \<noteq> length (urefs s)"

text \<open>\<open>n\<close> turns of the loop, each of which goes on, sends nothing, promotes no uref and
  leaves the pipe synchronised.\<close>

fun quiet_turns :: "mp2v_accessors \<Rightarrow> nat \<Rightarrow> upipe_mp2vf \<Rightarrow> upipe_mp2vf option" where
  "quiet_turns bs 0 s = Some s"
| "quiet_turns bs (Suc n) s =
     (case work_step bs s of
        Inr (True, s') \<Rightarrow>
          (if acquired s' \<and> \<not> sends s s' \<and> \<not> promotes s s' then quiet_turns bs n s' else None)
      | _ \<Rightarrow> None)"





text \<open>Sample data: a pipe in the middle of a frame (the picture header and a slice have
  been scanned) whose stream holds two frames and the picture start code of a third; the
  \<^verbatim>\<open>k.dts\<close> of the urefs sent by a run; a uref that carries a \<^verbatim>\<open>k.dts\<close>; a stream of two
  urefs that carry the same \<^verbatim>\<open>k.dts\<close>, one frame each; and a stream of one uref with two
  frames whose \<^verbatim>\<open>k.dts\<close> is two ticks below the sentinel.\<close>

definition sample_turn :: upipe_mp2vf where
  "sample_turn =
     sample_pipe\<lparr>next_uref := Some (sample_uref (sample_picture @ sample_slice @ sample_picture @
                                                   sample_slice @ sample_picture)),
                 next_uref_size := 36, next_frame_size := 12, next_frame_offset := 0,
                 next_frame_slice := True, next_frame_dts := 1000, next_frame_pts := 5000\<rparr>"






subsection \<open>Notions used to state the boundaries of the frames\<close>

text \<open>The octets of a uref, the octets of the stream not consumed yet, the consistency of
  the sizes the octet stream helper keeps (the stream holds the octets of \<open>next_uref\<close> and
  of the urefs queued behind it), the octets of the urefs sent by a run, and a user data
  start code for sample streams.\<close>

definition uref_octets :: "uref \<Rightarrow> byte list" where
  "uref_octets u = (case ubuf u of None \<Rightarrow> [] | Some b \<Rightarrow> octets b)"





section \<open>The inline dictionary of attributes (lib/upipe/udict_inline.c)\<close>

subsection \<open>Attribute types and shorthands\<close>

text \<open>Modelled from the spec: \<^verbatim>\<open>enum udict_type\<close> (upipe/udict.h) is not among the sources.
  The basic types are numbered in the order of section 3 of the specification, which is
  the order of the table \<^verbatim>\<open>attr_sizes\<close>, and the shorthands are numbered from
  \<^verbatim>\<open>UDICT_TYPE_SHORTHAND + 1\<close>. An \<^verbatim>\<open>enum\<close> is an integer in C: a type is a natural number
  here, and the octet that stores it has eight bits.\<close>

type_synonym udict_type = nat

definition UDICT_TYPE_END :: udict_type where "UDICT_TYPE_END = 0"
definition UDICT_TYPE_OPAQUE :: udict_type where "UDICT_TYPE_OPAQUE = 1"
definition UDICT_TYPE_STRING :: udict_type where "UDICT_TYPE_STRING = 2"
definition UDICT_TYPE_VOID :: udict_type where "UDICT_TYPE_VOID = 3"
definition UDICT_TYPE_BOOL :: udict_type where "UDICT_TYPE_BOOL = 4"
definition UDICT_TYPE_SMALL_UNSIGNED :: udict_type where "UDICT_TYPE_SMALL_UNSIGNED = 5"
definition UDICT_TYPE_SMALL_INT :: udict_type where "UDICT_TYPE_SMALL_INT = 6"
definition UDICT_TYPE_UNSIGNED :: udict_type where "UDICT_TYPE_UNSIGNED = 7"
definition UDICT_TYPE_INT :: udict_type where "UDICT_TYPE_INT = 8"
definition UDICT_TYPE_RATIONAL :: udict_type where "UDICT_TYPE_RATIONAL = 9"
definition UDICT_TYPE_FLOAT :: udict_type where "UDICT_TYPE_FLOAT = 10"
definition UDICT_TYPE_SHORTHAND :: udict_type where "UDICT_TYPE_SHORTHAND = 16"

definition UDICT_MIN_SIZE :: nat where "UDICT_MIN_SIZE = 128"
definition UDICT_EXTRA_SIZE :: nat where "UDICT_EXTRA_SIZE = 64"

text \<open>\<^verbatim>\<open>inline_shorthands\<close>: the name and the base type of every shorthand, in the order of
  the source.\<close>

definition inline_shorthands :: "(string \<times> udict_type) list" where
  "inline_shorthands =
     [(''f.disc'', UDICT_TYPE_VOID),
      (''f.random'', UDICT_TYPE_VOID),
      (''f.error'', UDICT_TYPE_VOID),
      (''f.def'', UDICT_TYPE_STRING),
      (''f.rawdef'', UDICT_TYPE_STRING),
      (''f.program'', UDICT_TYPE_STRING),
      (''f.lang'', UDICT_TYPE_STRING),
      (''k.systime'', UDICT_TYPE_UNSIGNED),
      (''k.systime.rap'', UDICT_TYPE_UNSIGNED),
      (''k.pts'', UDICT_TYPE_UNSIGNED),
      (''k.pts.orig'', UDICT_TYPE_UNSIGNED),
      (''k.pts.sys'', UDICT_TYPE_UNSIGNED),
      (''k.dts'', UDICT_TYPE_UNSIGNED),
      (''k.dts.orig'', UDICT_TYPE_UNSIGNED),
      (''k.dts.sys'', UDICT_TYPE_UNSIGNED),
      (''k.vbvdelay'', UDICT_TYPE_UNSIGNED),
      (''k.duration'', UDICT_TYPE_UNSIGNED),
      (''b.start'', UDICT_TYPE_VOID),
      (''b.end'', UDICT_TYPE_VOID),
      (''p.num'', UDICT_TYPE_UNSIGNED),
      (''p.hsize'', UDICT_TYPE_UNSIGNED),
      (''p.vsize'', UDICT_TYPE_UNSIGNED),
      (''p.hsizevis'', UDICT_TYPE_UNSIGNED),
      (''p.vsizevis'', UDICT_TYPE_UNSIGNED),
      (''p.hposition'', UDICT_TYPE_UNSIGNED),
      (''p.vposition'', UDICT_TYPE_UNSIGNED),
      (''p.aspect'', UDICT_TYPE_RATIONAL),
      (''p.progressive'', UDICT_TYPE_VOID),
      (''p.tf'', UDICT_TYPE_VOID),
      (''p.bf'', UDICT_TYPE_VOID),
      (''p.tff'', UDICT_TYPE_VOID)]"

text \<open>\<^verbatim>\<open>attr_sizes\<close>: the size of the value of every basic type.\<close>

definition attr_sizes :: "nat list" where
  "attr_sizes = [0, 0, 0, 0, 1, 1, 1, 8, 8, 16, 8]"

text \<open>\<^verbatim>\<open>udict_inline_shorthand\<close> returns a pointer into the table, or \<^verbatim>\<open>NULL\<close> (\<open>None\<close>). Each of
  its callers reads the entry at once, and the read of an entry that is not in the table
  is undefined in C: the model reads the entry here. The bound of the source lets the
  type \<^verbatim>\<open>UDICT_TYPE_SHORTHAND + 1 + 31\<close> through, whose entry is one past the end of the
  table.\<close>

definition udict_inline_shorthand :: "udict_type \<Rightarrow> error + (string \<times> udict_type) option" where
  "udict_inline_shorthand type =
     (if type > UDICT_TYPE_SHORTHAND + 1 + length inline_shorthands then Inr None
      else if type < UDICT_TYPE_SHORTHAND + 1 \<or>
              length inline_shorthands \<le> type - UDICT_TYPE_SHORTHAND - 1
        then Inl Out_of_bounds
      else Inr (Some (inline_shorthands ! (type - UDICT_TYPE_SHORTHAND - 1))))"

text \<open>\<^verbatim>\<open>udict_inline_name\<close>.\<close>

definition udict_inline_name :: "udict_type \<Rightarrow> error + (string \<times> udict_type) option" where
  "udict_inline_name type =
     (if type \<le> UDICT_TYPE_SHORTHAND then Inr None else udict_inline_shorthand type)"

subsection \<open>The dictionary and its buffer\<close>

text \<open>\<^verbatim>\<open>struct udict_inline_mgr\<close> and \<^verbatim>\<open>struct udict_inline\<close>, without the pool and the
  reference counts. The umem block is the list of its octets, whose length is
  \<^verbatim>\<open>umem_size\<close>. Modelled from the spec: the umem allocator (upipe/umem.h) is not among the
  sources; whether it serves the next request and what newly allocated octets hold are
  inputs of the model (\<open>umem_refused\<close>, \<open>umem_fresh\<close>), and \<^verbatim>\<open>umem_realloc\<close> keeps the octets
  the block held.\<close>

record udict_inline_mgr =
  min_size :: nat
  extra_size :: nat

record udict_inline =
  umem :: "byte list"
  size_inl :: nat
  mgr :: udict_inline_mgr
  umem_refused :: bool
  umem_fresh :: "nat \<Rightarrow> byte"

text \<open>\<^verbatim>\<open>udict_inline_mgr_alloc\<close>: the sizes the manager keeps.\<close>

definition udict_inline_mgr_alloc :: "int \<Rightarrow> int \<Rightarrow> udict_inline_mgr" where
  "udict_inline_mgr_alloc min_size_arg extra_size_arg =
     \<lparr>min_size = (if min_size_arg > 0 then nat min_size_arg else UDICT_MIN_SIZE),
      extra_size = (if extra_size_arg > 0 then nat extra_size_arg else UDICT_EXTRA_SIZE)\<rparr>"

text \<open>\<^verbatim>\<open>udict_inline_alloc\<close>: \<open>None\<close> is the \<^verbatim>\<open>NULL\<close> of a refused allocation.\<close>

definition udict_inline_alloc ::
  "udict_inline_mgr \<Rightarrow> nat \<Rightarrow> bool \<Rightarrow> (nat \<Rightarrow> byte) \<Rightarrow> error + udict_inline option" where
  "udict_inline_alloc m sz refused fresh =
     (let size' = (if sz < min_size m then min_size m else sz)
      in (if refused then Inr None
          else if size' = 0 then Inl Out_of_bounds
          else Inr (Some \<lparr>umem = (map fresh [0..<size'])[0 := of_nat UDICT_TYPE_END],
                           size_inl = 1, mgr = m, umem_refused = False,
                           umem_fresh = fresh\<rparr>)))"

text \<open>The read of one octet of the buffer, and of the 16-bit size
  \<^verbatim>\<open>(attr[1] << 8) | attr[2]\<close>.\<close>

definition octet_at :: "byte list \<Rightarrow> nat \<Rightarrow> error + byte" where
  "octet_at buf i = (if i < length buf then Inr (buf ! i) else Inl Out_of_bounds)"

definition attr_size16 :: "byte list \<Rightarrow> nat \<Rightarrow> error + nat" where
  "attr_size16 buf attr =
     (case octet_at buf (attr + 1) of
        Inl e \<Rightarrow> Inl e
      | Inr hi \<Rightarrow>
          (case octet_at buf (attr + 2) of
             Inl e \<Rightarrow> Inl e
           | Inr lo \<Rightarrow> Inr (unat (push_bit 8 (ucast hi) OR ucast lo :: u16))))"

text \<open>\<^verbatim>\<open>udict_inline_next\<close>: pointers into the buffer are offsets.\<close>

definition udict_inline_next :: "byte list \<Rightarrow> nat \<Rightarrow> error + nat option" where
  "udict_inline_next buf attr =
     (case octet_at buf attr of
        Inl e \<Rightarrow> Inl e
      | Inr t \<Rightarrow>
          (if unat t = UDICT_TYPE_END then Inr None
           else if unat t > UDICT_TYPE_SHORTHAND then
             (case udict_inline_shorthand (unat t) of
                Inl e \<Rightarrow> Inl e
              | Inr None \<Rightarrow> Inr None
              | Inr (Some shorthand) \<Rightarrow>
                  (if snd shorthand \<noteq> UDICT_TYPE_OPAQUE \<and> snd shorthand \<noteq> UDICT_TYPE_STRING
                   then Inr (Some (attr + attr_sizes ! snd shorthand + 1))
                   else map_sum id (\<lambda>sz. Some (attr + 3 + sz)) (attr_size16 buf attr)))
           else map_sum id (\<lambda>sz. Some (attr + 3 + sz)) (attr_size16 buf attr)))"

text \<open>\<^verbatim>\<open>!strcmp((const char *)(attr + 3), name)\<close>: a name is the list of the octets before
  its terminating zero, \<open>None\<close> is the \<^verbatim>\<open>NULL\<close> that goes with a shorthand. The comparison
  stops at the first difference; it leaves the buffer when the buffer ends before.\<close>

definition strcmp_eq :: "byte list \<Rightarrow> nat \<Rightarrow> byte list option \<Rightarrow> error + bool" where
  "strcmp_eq buf i name =
     (case name of
        None \<Rightarrow> Inl Null_deref
      | Some nm \<Rightarrow>
          (let s = nm @ [0]; d = take (length s) (drop i buf)
           in (if d = s then Inr True
               else if d = take (length d) s then Inl Out_of_bounds
               else Inr False)))"

text \<open>The loop of \<^verbatim>\<open>udict_inline_find\<close>, from the attribute at \<open>attr\<close>.\<close>

function udict_inline_find_from ::
  "byte list \<Rightarrow> byte list option \<Rightarrow> udict_type \<Rightarrow> nat \<Rightarrow> error + nat option" where
  "udict_inline_find_from buf name type attr =
     (case octet_at buf attr of
        Inl e \<Rightarrow> Inl e
      | Inr t \<Rightarrow>
          (case (if unat t = type
                 then (if type > UDICT_TYPE_SHORTHAND \<or> type = UDICT_TYPE_END then Inr True
                       else strcmp_eq buf (attr + 3) name)
                 else Inr False) of
             Inl e \<Rightarrow> Inl e
           | Inr True \<Rightarrow> Inr (Some attr)
           | Inr False \<Rightarrow>
               (case udict_inline_next buf attr of
                  Inl e \<Rightarrow> Inl e
                | Inr None \<Rightarrow> Inr None
                | Inr (Some attr') \<Rightarrow> udict_inline_find_from buf name type attr')))"
  by pat_completeness auto

lemma udict_inline_next_advances:
  "udict_inline_next buf attr = Inr (Some attr') \<Longrightarrow> attr < attr' \<and> attr < length buf"
  by (auto simp: udict_inline_next_def octet_at_def map_sum_def
      split: if_splits sum.splits option.splits)

termination udict_inline_find_from
  by (relation "measure (\<lambda>(buf, name, type, attr). length buf - attr)")
     (auto dest!: udict_inline_next_advances)

section \<open>Properties of the framer\<close>

subsection \<open>What the parsing of a frame leaves alone\<close>

lemma same_scan_refl: "same_scan s s" by (simp add: same_scan_def)
lemma same_scan_trans: "same_scan a b \<Longrightarrow> same_scan b c \<Longrightarrow> same_scan a c" by (simp add: same_scan_def)
lemma same_scan_throw: "same_scan s (upipe_throw e s)" by (simp add: same_scan_def upipe_throw_def)

lemma same_scan_finish:
  "parse_picture_finish s u d = Inr (ok, s', uo) \<Longrightarrow> same_scan s s'"
  by (auto simp: parse_picture_finish_def Let_def same_scan_def upipe_throw_def
      upipe_mp2vf_increment_dts_def upipe_mp2vf_flush_pts_def split: if_splits)

lemma same_scan_ext:
  "parse_picture_ext bs s u d off = Inr (ok, s', uo) \<Longrightarrow> same_scan s s'"
  unfolding parse_picture_ext_def Let_def
  by (auto split: option.splits if_splits simp: same_scan_throw dest: same_scan_finish)

lemma same_scan_duration:
  "parse_picture_duration bs s u = Inr (ok, s', uo) \<Longrightarrow> same_scan s s'"
  unfolding parse_picture_duration_def Let_def
  by (auto split: option.splits if_splits prod.splits simp: same_scan_refl dest: same_scan_finish same_scan_ext)

lemma same_scan_header:
  "parse_picture_header bs s u = Inr (ok, s', uo) \<Longrightarrow> same_scan s s'"
  unfolding parse_picture_header_def Let_def
  apply (auto split: option.splits if_splits  dest!: same_scan_duration)
  apply (auto simp: same_scan_def upipe_throw_def)
  done

lemma same_scan_gop:
  "parse_picture_gop bs s u = (s', r) \<Longrightarrow> same_scan s s'"
  unfolding parse_picture_gop_def
  by (auto split: option.splits if_splits simp: same_scan_def upipe_throw_def)

lemma same_scan_parse_picture:
  "upipe_mp2vf_parse_picture bs s u = Inr (ok, s', uo) \<Longrightarrow> same_scan s s'"
  unfolding upipe_mp2vf_parse_picture_def
  by (auto split: option.splits if_splits prod.splits
      dest!: same_scan_gop same_scan_header intro: same_scan_trans same_scan_throw)

lemma same_scan_handle_picture:
  "upipe_mp2vf_handle_picture bs s u = Inr (ok, s', uo) \<Longrightarrow> same_scan s s'"
  unfolding upipe_mp2vf_handle_picture_def Let_def
  apply (auto split: sum.splits prod.splits bool.splits option.splits uval.splits if_splits
      dest!: same_scan_parse_picture)
  apply (auto simp: same_scan_def upipe_throw_def)
  done

lemma same_scan_sequence_ext:
  "parse_sequence_ext bs s l = (s', r) \<Longrightarrow> same_scan s s'"
  unfolding parse_sequence_ext_def Let_def
  by (auto split: option.splits if_splits simp: same_scan_def upipe_throw_def)

lemma same_scan_sequence_finish:
  "parse_sequence_finish bs s a l = Inr (ok, s') \<Longrightarrow> same_scan s s'"
  unfolding parse_sequence_finish_def Let_def
  by (auto split: option.splits if_splits simp: same_scan_def upipe_throw_def upipe_mp2vf_store_flow_def_def)

lemma same_scan_parse_sequence:
  "upipe_mp2vf_parse_sequence bs s = Inr (ok, s') \<Longrightarrow> same_scan s s'"
  unfolding upipe_mp2vf_parse_sequence_def Let_def
  by (auto split: option.splits if_splits prod.splits
      dest!: same_scan_sequence_ext same_scan_sequence_finish
      intro: same_scan_trans same_scan_throw same_scan_refl)

lemma same_scan_handle_sequence:
  "upipe_mp2vf_handle_sequence bs s u = Inr (ok, s') \<Longrightarrow> same_scan s s'"
  unfolding upipe_mp2vf_handle_sequence_def Let_def
  apply (auto split: sum.splits option.splits if_splits prod.splits
      dest!: same_scan_parse_sequence)
  apply (auto simp: same_scan_def upipe_throw_def)
  done

lemma same_scan_output: "same_scan s (upipe_mp2vf_output s u)"
  by (auto simp: same_scan_def upipe_mp2vf_output_def split: option.splits)

lemma same_scan_output_frame:
  "upipe_mp2vf_output_frame bs s = Inr (ok, s') \<Longrightarrow> same_scan s s'"
  unfolding upipe_mp2vf_output_frame_def
  by (auto split: sum.splits option.splits if_splits prod.splits bool.splits
      dest!: same_scan_handle_sequence same_scan_handle_picture
      intro: same_scan_trans same_scan_throw same_scan_refl same_scan_output)

subsection \<open>The loop of the framer terminates\<close>

lemma promote_scan:
  "next_uref (upipe_mp2vf_promote_uref s) = next_uref s"
  "next_uref_size (upipe_mp2vf_promote_uref s) = next_uref_size s"
  "urefs (upipe_mp2vf_promote_uref s) = urefs s"
  "next_frame_size (upipe_mp2vf_promote_uref s) = next_frame_size s"
  "acquired (upipe_mp2vf_promote_uref s) = acquired s"
  by (auto simp: upipe_mp2vf_promote_uref_def split: option.splits)

lemma stream_size_promote: "stream_size (upipe_mp2vf_promote_uref s) = stream_size s"
  by (simp add: stream_size_def promote_scan)

lemma consume_size:
  "stream_size (octet_stream_consume q s n) \<le> stream_size s - n"
proof (induction q arbitrary: s n)
  case Nil
  then show ?case
    by (auto simp: stream_size_def uref_block_size_def uref_block_trim_def split: option.splits)
next
  case (Cons h q)
  show ?case
  proof (cases "next_uref s")
    case None
    then show ?thesis by (simp add: stream_size_def)
  next
    case (Some nu)
    show ?thesis
    proof (cases "n < next_uref_size s")
      case True
      with Some show ?thesis
        by (auto simp: stream_size_def uref_block_size_def uref_block_trim_def split: option.splits)
    next
      case False
      let ?s1 = "upipe_mp2vf_promote_uref
                     (s\<lparr>next_uref := Some (h\<lparr>ubuf := ubuf (uref_block_trim nu (next_uref_size s))\<rparr>),
                        next_uref_size := uref_block_size h,
                        urefs := q\<rparr>)"
      have "stream_size ?s1 \<le> stream_size s - next_uref_size s"
        unfolding stream_size_promote using Some
        by (auto simp: stream_size_def uref_block_size_def uref_block_trim_def split: option.splits)
      moreover have "stream_size (octet_stream_consume q ?s1 (n - next_uref_size s)) \<le> stream_size ?s1 - (n - next_uref_size s)"
        by (rule Cons.IH)
      ultimately show ?thesis using Some False by simp
    qed
  qed
qed


lemma find_Some:
  assumes "upipe_mp2vf_find s = (s1, Some start)"
  shows "s1 = s\<lparr>next_frame_size := next_frame_size s1\<rparr>"
    and "next_frame_size s \<le> next_frame_size s1"
    and "next_frame_size s1 + 3 < stream_size s"
  using assms
  by (auto simp: upipe_mp2vf_find_def uref_block_find_def ubuf_block_find_def
      uref_block_extract_def ubuf_block_extract_def stream_size_def uref_block_size_def
      split: option.splits if_splits)

lemma find_None:
  "upipe_mp2vf_find s = (s1, None) \<Longrightarrow> next_uref s1 = next_uref s"
  by (auto simp: upipe_mp2vf_find_def split: option.splits)

lemma stream_size_upd [simp]:
  "stream_size (s\<lparr>next_frame_size := z\<rparr>) = stream_size s"
  "stream_size (s\<lparr>next_frame_offset := off\<rparr>) = stream_size s"
  "stream_size (s\<lparr>next_frame_sequence := b\<rparr>) = stream_size s"
  "stream_size (s\<lparr>next_frame_slice := b\<rparr>) = stream_size s"
  "stream_size (upipe_mp2vf_sync_lost s) = stream_size s"
  "stream_size (upipe_mp2vf_sync_acquired s) = stream_size s"
  "stream_size (upipe_mp2vf_flush_pts s) = stream_size s"
  "stream_size (upipe_mp2vf_flush_dts s) = stream_size s"
  "stream_size (reset_next_frame s) = stream_size s"
  by (simp_all add: stream_size_def upipe_mp2vf_sync_lost_def upipe_mp2vf_sync_acquired_def
      upipe_throw_def upipe_mp2vf_flush_pts_def upipe_mp2vf_flush_dts_def reset_next_frame_def)

lemma same_scan_stream_size: "same_scan s s' \<Longrightarrow> stream_size s' = stream_size s"
  by (simp add: same_scan_def stream_size_def)

lemma open_next_frame_simps:
  "stream_size (open_next_frame s start) = stream_size s"
  "next_frame_size (open_next_frame s start) = (if start = MP2VEND_START_CODE then 0 else next_frame_size s)"
  "start = MP2VEND_START_CODE \<Longrightarrow> \<not> acquired (open_next_frame s start)"
  by (auto simp: open_next_frame_def upipe_mp2vf_sync_lost_def upipe_throw_def stream_size_def
      MP2VEND_START_CODE_def MP2VSEQ_START_CODE_def MP2VGOP_START_CODE_def MP2VPIC_START_CODE_def)

lemma consume_size':
  "stream_size (upipe_mp2vf_consume_octet_stream s n) \<le> stream_size s - n"
  unfolding upipe_mp2vf_consume_octet_stream_def by (rule consume_size)


lemma work_output_cases:
  assumes "work_output bs t start = Inr s'"
  obtains s1 where "upipe_mp2vf_output_frame bs t = Inr (False, s1)"
      "s' = reset_next_frame (upipe_mp2vf_sync_lost
             ((upipe_mp2vf_consume_octet_stream s1 (next_frame_size s1))\<lparr>next_frame_size := 0\<rparr>))"
  | s1 where "upipe_mp2vf_output_frame bs t = Inr (True, s1)"
      "s' = open_next_frame
              ((reset_next_frame (upipe_mp2vf_consume_octet_stream s1 (next_frame_size s1)))
                 \<lparr>next_frame_size := 4\<rparr>) start"
proof (cases "upipe_mp2vf_output_frame bs t")
  case (Inl e)
  with assms show ?thesis by (simp add: work_output_def)
next
  case (Inr r)
  obtain ok s1 where r: "r = (ok, s1)" by (cases r)
  show ?thesis
  proof (cases ok)
    case True
    with Inr r assms that(2) [of s1] show ?thesis by (simp add: work_output_def)
  next
    case False
    with Inr r assms that(1) [of s1] show ?thesis by (simp add: work_output_def)
  qed
qed


lemma reset_next_frame_simps:
  "stream_size (reset_next_frame s) = stream_size s"
  "next_frame_size (reset_next_frame s) = next_frame_size s"
  "acquired (reset_next_frame s) = acquired s"
  by (simp_all add: reset_next_frame_def stream_size_def)

lemma sync_lost_simps:
  "stream_size (upipe_mp2vf_sync_lost s) = stream_size s"
  "next_frame_size (upipe_mp2vf_sync_lost s) = next_frame_size s"
  "\<not> acquired (upipe_mp2vf_sync_lost s)"
  by (simp_all add: upipe_mp2vf_sync_lost_def upipe_throw_def stream_size_def)

lemma work_output_decreases:
  assumes "work_output bs t start = Inr s'"
  shows "stream_left s' \<le> stream_size t - next_frame_size t"
    and "\<not> acquired s' \<or> stream_left s' = 0 \<or> stream_left s' + 4 \<le> stream_size t - next_frame_size t"
proof -
  have "stream_left s' \<le> stream_size t - next_frame_size t \<and>
    (\<not> acquired s' \<or> stream_left s' = 0 \<or> stream_left s' + 4 \<le> stream_size t - next_frame_size t)"
  using assms
  proof (cases rule: work_output_cases)
    case (1 s1)
    from 1(1) have ss: "same_scan t s1" by (rule same_scan_output_frame)
    have sz: "stream_size s1 = stream_size t" "next_frame_size s1 = next_frame_size t"
      using ss same_scan_stream_size [OF ss] by (simp_all add: same_scan_def)
    define c where "c = upipe_mp2vf_consume_octet_stream s1 (next_frame_size s1)"
    have c: "stream_size c \<le> stream_size t - next_frame_size t"
      unfolding c_def using consume_size' [of s1 "next_frame_size s1"] sz by simp
    have s': "s' = reset_next_frame (upipe_mp2vf_sync_lost (c\<lparr>next_frame_size := 0\<rparr>))"
      using 1(2) by (simp add: c_def)
    have "\<not> acquired s'" unfolding s' by (simp add: reset_next_frame_simps sync_lost_simps)
    moreover have "stream_left s' \<le> stream_size c"
      unfolding s' stream_left_def by (simp add: reset_next_frame_simps sync_lost_simps)
    ultimately show ?thesis using c by simp
  next
    case (2 s1)
    from 2(1) have ss: "same_scan t s1" by (rule same_scan_output_frame)
    have sz: "stream_size s1 = stream_size t" "next_frame_size s1 = next_frame_size t"
      using ss same_scan_stream_size [OF ss] by (simp_all add: same_scan_def)
    define c where "c = upipe_mp2vf_consume_octet_stream s1 (next_frame_size s1)"
    have c: "stream_size c \<le> stream_size t - next_frame_size t"
      unfolding c_def using consume_size' [of s1 "next_frame_size s1"] sz by simp
    have s': "s' = open_next_frame ((reset_next_frame c)\<lparr>next_frame_size := 4\<rparr>) start"
      using 2(2) by (simp add: c_def)
    have 1: "stream_size s' = stream_size c"
      unfolding s' by (simp add: open_next_frame_simps reset_next_frame_simps)
    have 2: "next_frame_size s' = (if start = MP2VEND_START_CODE then 0 else 4)"
      unfolding s' by (simp add: open_next_frame_simps)
    have 3: "start = MP2VEND_START_CODE \<Longrightarrow> \<not> acquired s'"
      unfolding s' by (simp add: open_next_frame_simps)
    show ?thesis
    proof (cases "start = MP2VEND_START_CODE")
      case True
      with 1 2 3 c show ?thesis by (simp add: stream_left_def)
    next
      case False
      with 1 2 c have "stream_left s' = stream_size c - 4" by (simp add: stream_left_def)
      with c show ?thesis by linarith
    qed
  qed
  then show "stream_left s' \<le> stream_size t - next_frame_size t"
    and "\<not> acquired s' \<or> stream_left s' = 0 \<or> stream_left s' + 4 \<le> stream_size t - next_frame_size t"
    by simp_all
qed

lemma stream_left_add4: "stream_left (add4 s) = stream_left s - 4"
  by (simp add: stream_left_def add4_def stream_size_def)

lemma work_step_decreases:
  assumes "work_step bs s = Inr (True, s')"
  shows "stream_left s' < stream_left s \<or>
         (stream_left s' \<le> stream_left s \<and> acquired s \<and> \<not> acquired s')"
proof -
  from assms obtain s1 start where f: "upipe_mp2vf_find s = (s1, Some start)"
    by (cases "upipe_mp2vf_find s") (auto simp: work_step_def split: option.splits)
  note fs = find_Some [OF f]
  have s1: "stream_size s1 = stream_size s" "acquired s1 = acquired s"
    by (subst fs(1), simp)+
  have pos: "4 \<le> stream_size s - next_frame_size s1" using fs(3) by simp
  have le: "stream_size s - next_frame_size s1 \<le> stream_left s"
    using fs(2) by (simp add: stream_left_def)
  show ?thesis
  proof (cases "acquired s1")
    case False
    define c where "c = (upipe_mp2vf_consume_octet_stream s1 (next_frame_size s1))\<lparr>next_frame_size := 0\<rparr>"
    have c: "stream_size c \<le> stream_size s - next_frame_size s1" "next_frame_size c = 0"
      unfolding c_def using consume_size' [of s1 "next_frame_size s1"] s1 by simp_all
    from assms f False have "\<exists>c'. s' = add4 c' \<and> stream_size c' = stream_size c \<and> next_frame_size c' = 0"
      by (auto simp: work_step_def Let_def c_def [symmetric] c(2) upipe_mp2vf_flush_pts_def
          upipe_mp2vf_flush_dts_def upipe_mp2vf_sync_acquired_def upipe_throw_def stream_size_def split: if_splits)
    then obtain c' where "s' = add4 c'" "stream_size c' = stream_size c" "next_frame_size c' = 0" by blast
    then have "stream_left s' = stream_size c - 4"
      by (simp add: stream_left_def add4_def stream_size_def)
    with c pos le have "stream_left s' < stream_left s" by linarith
    then show ?thesis by simp
  next
    case True
    show ?thesis
    proof (cases "next_frame_offset s1 = - 1 \<or> start = MP2VX_START_CODE \<or>
        (MP2VPIC_START_CODE < start \<and> start \<le> MP2VPIC_LAST_CODE)")
      case True
      with assms f \<open>acquired s1\<close> have "\<exists>c'. s' = add4 c' \<and> stream_size c' = stream_size s1 \<and> next_frame_size c' = next_frame_size s1"
        by (auto simp: work_step_def stream_size_def split: if_splits)
      then obtain c' where "s' = add4 c'" "stream_size c' = stream_size s1" "next_frame_size c' = next_frame_size s1" by blast
      then have "stream_left s' = stream_size s - next_frame_size s1 - 4"
        using s1 by (simp add: stream_left_def add4_def stream_size_def)
      with pos le have "stream_left s' < stream_left s" by linarith
      then show ?thesis by simp
    next
      case False
      define t where "t = (if start = MP2VEND_START_CODE then add4 s1 else s1)"
      from assms f False \<open>acquired s1\<close> have w: "work_output bs t start = Inr s'"
        by (auto simp: work_step_def t_def map_sum_def split: if_splits sum.splits)
      have "stream_size (add4 s1) = stream_size s1" by (simp add: add4_def stream_size_def)
      then have t: "stream_size t - next_frame_size t \<le> stream_size s - next_frame_size s1"
        using s1 by (auto simp: t_def add4_def)
      have acq: "acquired s" using s1 \<open>acquired s1\<close> by simp
      note A = work_output_decreases(1) [OF w] and B = work_output_decreases(2) [OF w]
      from A t le have le': "stream_left s' \<le> stream_left s" by linarith
      from B show ?thesis
      proof (elim disjE)
        assume "\<not> acquired s'"
        with le' acq show ?thesis by simp
      next
        assume "stream_left s' = 0"
        with pos le have "stream_left s' < stream_left s" by linarith
        then show ?thesis by simp
      next
        assume "stream_left s' + 4 \<le> stream_size t - next_frame_size t"
        with t le have "stream_left s' < stream_left s" by linarith
        then show ?thesis by simp
      qed
    qed
  qed
qed

lemma work_measure:
  assumes "work_step bs s = Inr r" "fst r"
  shows "((bs, snd r), bs, s) \<in> measures [\<lambda>p. stream_left (snd p), \<lambda>p. if acquired (snd p) then 1 else (0::nat)]"
proof -
  from assms have "work_step bs s = Inr (True, snd r)" by (cases r) simp
  from work_step_decreases [OF this]
  show ?thesis by (simp only: in_measures snd_conv) (simp split: if_splits, linarith)
qed


termination upipe_mp2vf_work
proof (relation "measures [\<lambda>p. stream_left (snd p), \<lambda>p. if acquired (snd p) then 1 else 0]")
  show "wf (measures [\<lambda>p. stream_left (snd p),
                      \<lambda>p::mp2v_accessors \<times> upipe_mp2vf. if acquired (snd p) then 1 else 0])"
    by (rule wf_measures)
next
  fix bs s nu r
  assume "next_uref s = Some nu" "work_step bs s = Inr r" "fst r"
  then show "((bs, snd r), bs, s)
      \<in> measures [\<lambda>p. stream_left (snd p), \<lambda>p. if acquired (snd p) then 1 else 0]"
    by (rule_tac work_measure)
qed

declare upipe_mp2vf_work.simps [simp del]

subsection \<open>A picture that parses\<close>

lemma and_set_fst: "fst (and_set ru k v) \<Longrightarrow> fst ru"
  by (auto simp: and_set_def split: if_splits)

lemma and_set_other: "k' \<noteq> k \<Longrightarrow> attrs (snd (and_set ru k v)) k' = attrs (snd ru) k'"
  by (auto simp: and_set_def uref_attr_set_def split: if_splits option.splits)

lemma and_set_same: "fst (and_set ru k v) \<Longrightarrow> attrs (snd (and_set ru k v)) k = Some v"
  by (auto simp: and_set_def uref_attr_set_def split: if_splits option.splits)

lemma and_set_ubuf: "ubuf (snd (and_set ru k v)) = ubuf (snd ru)"
  by (auto simp: and_set_def uref_attr_set_def split: if_splits option.splits)

lemma set_timestamp_fst: "fst (set_timestamp reg k ru) \<Longrightarrow> fst ru"
  by (auto simp: set_timestamp_def dest: and_set_fst split: if_splits)

lemma set_timestamp_other:
  "k' \<noteq> k \<Longrightarrow> attrs (snd (set_timestamp reg k ru)) k' = attrs (snd ru) k'"
  by (simp add: set_timestamp_def and_set_other uref_attr_delete_def)

lemma set_timestamp_same:
  "fst (set_timestamp reg k ru) \<Longrightarrow>
   attrs (snd (set_timestamp reg k ru)) k = (if reg \<noteq> UINT64_MAX then Some (VUnsigned reg) else None)"
  by (auto simp: set_timestamp_def and_set_same uref_attr_delete_def)


lemma set_timestamps_attrs:
  assumes "fst (set_timestamps s u)"
  shows "attrs (snd (set_timestamps s u)) K_pts_orig =
           (if next_frame_pts_orig s \<noteq> UINT64_MAX then Some (VUnsigned (next_frame_pts_orig s)) else None)"
    and "attrs (snd (set_timestamps s u)) K_pts =
           (if next_frame_pts s \<noteq> UINT64_MAX then Some (VUnsigned (next_frame_pts s)) else None)"
    and "attrs (snd (set_timestamps s u)) K_pts_sys =
           (if next_frame_pts_sys s \<noteq> UINT64_MAX then Some (VUnsigned (next_frame_pts_sys s)) else None)"
    and "attrs (snd (set_timestamps s u)) K_dts_orig =
           (if next_frame_dts_orig s \<noteq> UINT64_MAX then Some (VUnsigned (next_frame_dts_orig s)) else None)"
    and "attrs (snd (set_timestamps s u)) K_dts =
           (if next_frame_dts s \<noteq> UINT64_MAX then Some (VUnsigned (next_frame_dts s)) else None)"
    and "attrs (snd (set_timestamps s u)) K_dts_sys =
           (if next_frame_dts_sys s \<noteq> UINT64_MAX then Some (VUnsigned (next_frame_dts_sys s)) else None)"
proof -
  note f = set_timestamp_fst
  from assms have 6: "fst (set_timestamp (next_frame_dts_sys s) K_dts_sys
       (set_timestamp (next_frame_dts s) K_dts
         (set_timestamp (next_frame_dts_orig s) K_dts_orig
           (set_timestamp (next_frame_pts_sys s) K_pts_sys
             (set_timestamp (next_frame_pts s) K_pts
               (set_timestamp (next_frame_pts_orig s) K_pts_orig (True, u)))))))"
    by (simp add: set_timestamps_def)
  note 5 = f [OF 6] note 4 = f [OF 5] note 3 = f [OF 4] note 2 = f [OF 3] note 1 = f [OF 2]
  show "attrs (snd (set_timestamps s u)) K_pts_orig =
           (if next_frame_pts_orig s \<noteq> UINT64_MAX then Some (VUnsigned (next_frame_pts_orig s)) else None)"
    unfolding set_timestamps_def by (simp add: set_timestamp_other set_timestamp_same [OF 1])
  show "attrs (snd (set_timestamps s u)) K_pts =
           (if next_frame_pts s \<noteq> UINT64_MAX then Some (VUnsigned (next_frame_pts s)) else None)"
    unfolding set_timestamps_def by (simp add: set_timestamp_other set_timestamp_same [OF 2])
  show "attrs (snd (set_timestamps s u)) K_pts_sys =
           (if next_frame_pts_sys s \<noteq> UINT64_MAX then Some (VUnsigned (next_frame_pts_sys s)) else None)"
    unfolding set_timestamps_def by (simp add: set_timestamp_other set_timestamp_same [OF 3])
  show "attrs (snd (set_timestamps s u)) K_dts_orig =
           (if next_frame_dts_orig s \<noteq> UINT64_MAX then Some (VUnsigned (next_frame_dts_orig s)) else None)"
    unfolding set_timestamps_def by (simp add: set_timestamp_other set_timestamp_same [OF 4])
  show "attrs (snd (set_timestamps s u)) K_dts =
           (if next_frame_dts s \<noteq> UINT64_MAX then Some (VUnsigned (next_frame_dts s)) else None)"
    unfolding set_timestamps_def by (simp add: set_timestamp_other set_timestamp_same [OF 5])
  show "attrs (snd (set_timestamps s u)) K_dts_sys =
           (if next_frame_dts_sys s \<noteq> UINT64_MAX then Some (VUnsigned (next_frame_dts_sys s)) else None)"
    unfolding set_timestamps_def by (simp add: set_timestamp_same [OF 6])
qed

lemma set_timestamps_other:
  "k \<notin> clock_keys \<Longrightarrow> attrs (snd (set_timestamps s u)) k = attrs u k"
  by (simp add: set_timestamps_def clock_keys_def set_timestamp_other)


lemma finish_True:
  assumes "parse_picture_finish s u d = Inr (True, s', Some u')"
  shows "s' = upipe_mp2vf_increment_dts (upipe_mp2vf_flush_pts s) d"
    and "u' = snd (set_timestamps s u)" and "fst (set_timestamps s u)"
  using assms by (auto simp: parse_picture_finish_def Let_def split: if_splits)

lemma ext_True:
  assumes "parse_picture_ext bs s u d off = Inr (True, s', Some u')"
  obtains ext u2 where "uref_block_peek u off MP2VPICX_HEADER_SIZE = Some ext"
    and "parse_picture_finish s u2
           (picture_duration (progressive_sequence s) (mp2vpicx_get_structure bs ext)
              (mp2vpicx_get_tff bs ext) (mp2vpicx_get_rff bs ext) d) = Inr (True, s', Some u')"
    and "attrs u2 K_duration =
           Some (VUnsigned (picture_duration (progressive_sequence s) (mp2vpicx_get_structure bs ext)
              (mp2vpicx_get_tff bs ext) (mp2vpicx_get_rff bs ext) d))"
    and "\<And>k. k \<notin> ext_keys \<Longrightarrow> attrs u2 k = attrs u k"
    and "ubuf u2 = ubuf u"
proof -
  from assms obtain ext where p: "uref_block_peek u off MP2VPICX_HEADER_SIZE = Some ext"
    by (auto simp: parse_picture_ext_def split: option.splits)
  define st where "st = mp2vpicx_get_structure bs ext"
  define d' where "d' = picture_duration (progressive_sequence s) st
              (mp2vpicx_get_tff bs ext) (mp2vpicx_get_rff bs ext) d"
  define r1 where "r1 = (if st AND MP2VPICX_TOP_FIELD \<noteq> 0
                     then and_set (True, u) P_tf VVoid else (True, u))"
  define r2 where "r2 = (if st AND MP2VPICX_BOTTOM_FIELD \<noteq> 0
                     then and_set r1 P_bf VVoid else r1)"
  define r3 where "r3 = (if mp2vpicx_get_tff bs ext then and_set r2 P_tff VVoid else r2)"
  define r4 where "r4 = and_set r3 K_duration (VUnsigned d')"
  define r5 where "r5 = (if mp2vpicx_get_progressive bs ext then and_set r4 P_progressive VVoid else r4)"
  have "parse_picture_ext bs s u d off =
          (if \<not> fst r5 then Inr (False, upipe_throw Aerror s, Some (snd r5))
           else parse_picture_finish s (snd r5) d')"
    unfolding parse_picture_ext_def r5_def r4_def r3_def r2_def r1_def d'_def st_def
    by (simp only: p option.case Let_def)
  with assms have e: "(if \<not> fst r5 then Inr (False, upipe_throw Aerror s, Some (snd r5))
               else parse_picture_finish s (snd r5) d') = Inr (True, s', Some u')"
    by simp
  then have f5: "fst r5" and fin: "parse_picture_finish s (snd r5) d' = Inr (True, s', Some u')"
    by (auto split: if_splits)
  from f5 have f4: "fst r4" by (auto simp: r5_def dest: and_set_fst split: if_splits)
  have "attrs (snd r5) K_duration = attrs (snd r4) K_duration"
    by (simp add: r5_def and_set_other)
  also have "\<dots> = Some (VUnsigned d')"
    using f4 unfolding r4_def by (rule and_set_same)
  finally have dur: "attrs (snd r5) K_duration = Some (VUnsigned d')" .
  have other: "attrs (snd r5) k = attrs u k" if "k \<notin> ext_keys" for k
    using that by (simp add: ext_keys_def r5_def r4_def r3_def r2_def r1_def and_set_other)
  have ub: "ubuf (snd r5) = ubuf u"
    by (simp add: r5_def r4_def r3_def r2_def r1_def and_set_ubuf)
  show ?thesis
    using that [of ext "snd r5"] p fin dur other ub
    by (simp add: d'_def st_def)
qed

lemma find_ext_ubuf: "ubuf u' = ubuf u \<Longrightarrow> upipe_mp2vf_find_ext u' off = upipe_mp2vf_find_ext u off"
  unfolding upipe_mp2vf_find_ext_def uref_block_find_def uref_block_extract_def
  by (simp cong: option.case_cong)

lemma peek_ubuf: "ubuf u' = ubuf u \<Longrightarrow> uref_block_peek u' off n = uref_block_peek u off n"
  by (simp add: uref_block_peek_def)

lemma duration_True:
  assumes "parse_picture_duration bs s u = Inr (True, s', Some u')"
  obtains (no_ext) "num (fps s) \<noteq> 0"
      "upipe_mp2vf_find_ext u (nat (next_frame_offset s) + MP2VPIC_HEADER_SIZE) = None"
      "parse_picture_finish s u (UCLOCK_FREQ * den (fps s) div num (fps s)) = Inr (True, s', Some u')"
  | (ext) ext_offset where "num (fps s) \<noteq> 0"
      "upipe_mp2vf_find_ext u (nat (next_frame_offset s) + MP2VPIC_HEADER_SIZE) =
         Some (ext_offset, MP2VX_ID_PICX)"
      "parse_picture_ext bs s u (UCLOCK_FREQ * den (fps s) div num (fps s)) ext_offset =
         Inr (True, s', Some u')"
  using assms unfolding parse_picture_duration_def Let_def
  by (auto split: if_splits option.splits prod.splits)

lemma header_True:
  assumes "parse_picture_header bs s u = Inr (True, s', Some u')"
  obtains picture s2 u2 where "0 \<le> next_frame_offset s"
    and "uref_block_peek u (nat (next_frame_offset s)) MP2VPIC_HEADER_SIZE = Some picture"
    and "s2 = (if uint (mp2vpic_get_temporalreference bs picture) > last_temporal_reference s
               then s\<lparr>last_temporal_reference := uint (mp2vpic_get_temporalreference bs picture),
                      last_picture_number := last_picture_number s +
                        word_of_int (uint (mp2vpic_get_temporalreference bs picture) -
                                     last_temporal_reference s)\<rparr>
               else s)"
    and "parse_picture_duration bs s2 u2 = Inr (True, s', Some u')"
    and "attrs u2 P_num = Some (VUnsigned (last_picture_number s +
            word_of_int (uint (mp2vpic_get_temporalreference bs picture) - last_temporal_reference s)))"
    and "\<And>k. k \<notin> header_keys \<Longrightarrow> attrs u2 k = attrs u k"
    and "ubuf u2 = ubuf u"
proof -
  from assms obtain picture where p: "0 \<le> next_frame_offset s"
      "uref_block_peek u (nat (next_frame_offset s)) MP2VPIC_HEADER_SIZE = Some picture"
    by (auto simp: parse_picture_header_def split: option.splits if_splits)
  define tr where "tr = mp2vpic_get_temporalreference bs picture"
  define pn where "pn = last_picture_number s + word_of_int (uint tr - last_temporal_reference s)"
  define s2 where "s2 = (if uint tr > last_temporal_reference s
               then s\<lparr>last_temporal_reference := uint tr, last_picture_number := pn\<rparr> else s)"
  define r1 where "r1 = and_set (True, u) P_num (VUnsigned pn)"
  define r2 where "r2 = and_set r1 Mp2v_type (VSmall_unsigned (mp2vpic_get_codingtype bs picture))"
  define r3 where "r3 = (if mp2vpic_get_vbvdelay bs picture \<noteq> 0xFFFF
                     then and_set r2 K_vbvdelay
                       (VUnsigned (ucast (mp2vpic_get_vbvdelay bs picture) * UCLOCK_FREQ div 90000))
                     else r2)"
  have "parse_picture_header bs s u =
          (if \<not> fst r3 then Inr (False, upipe_throw Aerror s2, Some (snd r3))
           else parse_picture_duration bs s2 (snd r3))"
    unfolding parse_picture_header_def r3_def r2_def r1_def s2_def pn_def tr_def
    using p by (simp only: option.case Let_def if_False not_less [symmetric])
  with assms have e: "(if \<not> fst r3 then Inr (False, upipe_throw Aerror s2, Some (snd r3))
               else parse_picture_duration bs s2 (snd r3)) = Inr (True, s', Some u')"
    by simp
  then have f3: "fst r3" and d: "parse_picture_duration bs s2 (snd r3) = Inr (True, s', Some u')"
    by (auto split: if_splits)
  from f3 have f2: "fst r2" by (auto simp: r3_def dest: and_set_fst split: if_splits)
  then have f1: "fst r1" unfolding r2_def by (rule and_set_fst)
  have "attrs (snd r3) P_num = attrs (snd r1) P_num"
    by (simp add: r3_def r2_def and_set_other)
  also have "\<dots> = Some (VUnsigned pn)" using f1 unfolding r1_def by (rule and_set_same)
  finally have n: "attrs (snd r3) P_num = Some (VUnsigned pn)" .
  have other: "attrs (snd r3) k = attrs u k" if "k \<notin> header_keys" for k
    using that by (simp add: header_keys_def r3_def r2_def r1_def and_set_other)
  have ub: "ubuf (snd r3) = ubuf u" by (simp add: r3_def r2_def r1_def and_set_ubuf)
  show ?thesis
    using that [of picture s2 "snd r3"] p d n other ub
    by (simp add: s2_def pn_def tr_def)
qed

lemma gop_facts:
  assumes "parse_picture_gop bs s u = (s1, r)"
  shows "s1 = s \<or> s1 = upipe_throw Aerror s \<or> s1 = s\<lparr>last_temporal_reference := - 1\<rparr>"
  using assms by (auto simp: parse_picture_gop_def split: if_splits option.splits)

lemma parse_picture_True:
  assumes "upipe_mp2vf_parse_picture bs s u = Inr (True, s', Some u')"
  obtains s1 u1 where "s1 = fst (parse_picture_gop bs s u)"
    and "s1 = s \<or> s1 = s\<lparr>last_temporal_reference := - 1\<rparr>"
    and "parse_picture_header bs s1 u1 = Inr (True, s', Some u')"
    and "\<And>k. k \<noteq> F_disc \<Longrightarrow> attrs u1 k = attrs u k"
    and "ubuf u1 = ubuf u"
  using assms unfolding upipe_mp2vf_parse_picture_def
  by (auto simp: parse_picture_gop_def uref_attr_set_def split: if_splits option.splits prod.splits)

lemma parse_picture_success:
  assumes "upipe_mp2vf_parse_picture bs s u = Inr (True, s', Some u')"
  obtains s1 picture s2 d u3 where
    "s1 = fst (parse_picture_gop bs s u)"
    "s1 = s \<or> s1 = s\<lparr>last_temporal_reference := - 1\<rparr>"
    "0 \<le> next_frame_offset s"
    "uref_block_peek u (nat (next_frame_offset s)) MP2VPIC_HEADER_SIZE = Some picture"
    "s2 = (if uint (mp2vpic_get_temporalreference bs picture) > last_temporal_reference s1
           then s1\<lparr>last_temporal_reference := uint (mp2vpic_get_temporalreference bs picture),
                   last_picture_number := last_picture_number s1 +
                     word_of_int (uint (mp2vpic_get_temporalreference bs picture) -
                                  last_temporal_reference s1)\<rparr>
           else s1)"
    "num (fps s) \<noteq> 0"
    "s' = upipe_mp2vf_increment_dts (upipe_mp2vf_flush_pts s2) d"
    "u' = snd (set_timestamps s2 u3)" "fst (set_timestamps s2 u3)"
    "attrs u3 P_num = Some (VUnsigned (last_picture_number s1 +
        word_of_int (uint (mp2vpic_get_temporalreference bs picture) - last_temporal_reference s1)))"
    "(upipe_mp2vf_find_ext u (nat (next_frame_offset s) + MP2VPIC_HEADER_SIZE) = None \<and>
      d = UCLOCK_FREQ * den (fps s) div num (fps s)) \<or>
     (\<exists>ext_offset ext.
        upipe_mp2vf_find_ext u (nat (next_frame_offset s) + MP2VPIC_HEADER_SIZE) =
          Some (ext_offset, MP2VX_ID_PICX) \<and>
        uref_block_peek u ext_offset MP2VPICX_HEADER_SIZE = Some ext \<and>
        d = picture_duration (progressive_sequence s) (mp2vpicx_get_structure bs ext)
              (mp2vpicx_get_tff bs ext) (mp2vpicx_get_rff bs ext)
              (UCLOCK_FREQ * den (fps s) div num (fps s)) \<and>
        attrs u3 K_duration = Some (VUnsigned d))"
proof -
  from assms obtain s1 u1 where 1: "s1 = fst (parse_picture_gop bs s u)"
    "s1 = s \<or> s1 = s\<lparr>last_temporal_reference := - 1\<rparr>"
    "parse_picture_header bs s1 u1 = Inr (True, s', Some u')"
    "ubuf u1 = ubuf u"
    by (rule parse_picture_True)
  from 1(3) obtain picture s2 u2 where 2: "0 \<le> next_frame_offset s1"
    "uref_block_peek u1 (nat (next_frame_offset s1)) MP2VPIC_HEADER_SIZE = Some picture"
    "s2 = (if uint (mp2vpic_get_temporalreference bs picture) > last_temporal_reference s1
           then s1\<lparr>last_temporal_reference := uint (mp2vpic_get_temporalreference bs picture),
                   last_picture_number := last_picture_number s1 +
                     word_of_int (uint (mp2vpic_get_temporalreference bs picture) -
                                  last_temporal_reference s1)\<rparr>
           else s1)"
    "parse_picture_duration bs s2 u2 = Inr (True, s', Some u')"
    "attrs u2 P_num = Some (VUnsigned (last_picture_number s1 +
        word_of_int (uint (mp2vpic_get_temporalreference bs picture) - last_temporal_reference s1)))"
    "ubuf u2 = ubuf u1"
    by (rule header_True)
  have off: "next_frame_offset s1 = next_frame_offset s" "fps s1 = fps s"
    "progressive_sequence s1 = progressive_sequence s"
    using 1(2) by auto
  have s2: "next_frame_offset s2 = next_frame_offset s" "fps s2 = fps s"
    "progressive_sequence s2 = progressive_sequence s"
    unfolding 2(3) using off by simp_all
  have ub: "ubuf u2 = ubuf u" using 1(4) 2(6) by simp
  note fe = find_ext_ubuf [OF ub] and pk = peek_ubuf [OF ub]
  have a3: "0 \<le> next_frame_offset s" using 2(1) off(1) by simp
  have a4: "uref_block_peek u (nat (next_frame_offset s)) MP2VPIC_HEADER_SIZE = Some picture"
    using 2(2) peek_ubuf [OF 1(4)] off(1) by simp
  from 2(4) show ?thesis
  proof (cases rule: duration_True)
    case no_ext
    note fin = finish_True [OF no_ext(3)]
    have a6: "num (fps s) \<noteq> 0" using no_ext(1) s2(2) by simp
    have a7: "s' = upipe_mp2vf_increment_dts (upipe_mp2vf_flush_pts s2)
                     (UCLOCK_FREQ * den (fps s) div num (fps s))"
      using fin(1) s2(2) by simp
    have a11: "upipe_mp2vf_find_ext u (nat (next_frame_offset s) + MP2VPIC_HEADER_SIZE) = None"
      using no_ext(2) fe s2(1) by simp
    show ?thesis
      by (rule that [OF 1(1) 1(2) a3 a4 2(3) a6 a7 fin(2) fin(3) 2(5)]) (simp add: a11)
  next
    case (ext ext_offset)
    from ext(3) obtain xb u3 where 3: "uref_block_peek u2 ext_offset MP2VPICX_HEADER_SIZE = Some xb"
      "parse_picture_finish s2 u3
           (picture_duration (progressive_sequence s2) (mp2vpicx_get_structure bs xb)
              (mp2vpicx_get_tff bs xb) (mp2vpicx_get_rff bs xb)
              (UCLOCK_FREQ * den (fps s2) div num (fps s2))) = Inr (True, s', Some u')"
      "attrs u3 K_duration =
           Some (VUnsigned (picture_duration (progressive_sequence s2) (mp2vpicx_get_structure bs xb)
              (mp2vpicx_get_tff bs xb) (mp2vpicx_get_rff bs xb)
              (UCLOCK_FREQ * den (fps s2) div num (fps s2))))"
      "\<And>k. k \<notin> ext_keys \<Longrightarrow> attrs u3 k = attrs u2 k"
      "ubuf u3 = ubuf u2"
      by (rule ext_True) blast
    define d where "d = picture_duration (progressive_sequence s) (mp2vpicx_get_structure bs xb)
              (mp2vpicx_get_tff bs xb) (mp2vpicx_get_rff bs xb)
              (UCLOCK_FREQ * den (fps s) div num (fps s))"
    have d: "picture_duration (progressive_sequence s2) (mp2vpicx_get_structure bs xb)
              (mp2vpicx_get_tff bs xb) (mp2vpicx_get_rff bs xb)
              (UCLOCK_FREQ * den (fps s2) div num (fps s2)) = d"
      unfolding d_def s2(2) s2(3) ..
    note fin = finish_True [OF 3(2) [unfolded d]]
    have a6: "num (fps s) \<noteq> 0" using ext(1) s2(2) by simp
    have n: "attrs u3 P_num = attrs u2 P_num" by (rule 3(4)) (simp add: ext_keys_def)
    have a11: "upipe_mp2vf_find_ext u (nat (next_frame_offset s) + MP2VPIC_HEADER_SIZE) =
          Some (ext_offset, MP2VX_ID_PICX)"
      using ext(2) fe s2(1) by simp
    have a12: "uref_block_peek u ext_offset MP2VPICX_HEADER_SIZE = Some xb"
      using 3(1) pk by simp
    show ?thesis
      apply (rule that [OF 1(1) 1(2) a3 a4 2(3) a6 fin(1) fin(2) fin(3) n [unfolded 2(5)]])
      apply (rule disjI2)
      apply (rule exI [of _ ext_offset], rule exI [of _ xb])
      using a11 a12 3(3) [unfolded d] apply (simp add: d_def)
      done
  qed
qed

lemma increment_flush_regs:
  "next_frame_pts_orig (upipe_mp2vf_increment_dts (upipe_mp2vf_flush_pts s) d) = UINT64_MAX"
  "next_frame_pts (upipe_mp2vf_increment_dts (upipe_mp2vf_flush_pts s) d) = UINT64_MAX"
  "next_frame_pts_sys (upipe_mp2vf_increment_dts (upipe_mp2vf_flush_pts s) d) = UINT64_MAX"
  "next_frame_dts_orig (upipe_mp2vf_increment_dts (upipe_mp2vf_flush_pts s) d) =
     (if next_frame_dts_orig s = UINT64_MAX then UINT64_MAX else next_frame_dts_orig s + d)"
  "next_frame_dts (upipe_mp2vf_increment_dts (upipe_mp2vf_flush_pts s) d) =
     (if next_frame_dts s = UINT64_MAX then UINT64_MAX else next_frame_dts s + d)"
  "next_frame_dts_sys (upipe_mp2vf_increment_dts (upipe_mp2vf_flush_pts s) d) =
     (if next_frame_dts_sys s = UINT64_MAX then UINT64_MAX else next_frame_dts_sys s + d)"
  "last_temporal_reference (upipe_mp2vf_increment_dts (upipe_mp2vf_flush_pts s) d) =
     last_temporal_reference s"
  "last_picture_number (upipe_mp2vf_increment_dts (upipe_mp2vf_flush_pts s) d) =
     last_picture_number s"
  by (simp_all add: upipe_mp2vf_increment_dts_def upipe_mp2vf_flush_pts_def Let_def)

lemma set_timestamps_regs:
  assumes "next_frame_pts_orig t = next_frame_pts_orig s" "next_frame_pts t = next_frame_pts s"
    "next_frame_pts_sys t = next_frame_pts_sys s" "next_frame_dts_orig t = next_frame_dts_orig s"
    "next_frame_dts t = next_frame_dts s" "next_frame_dts_sys t = next_frame_dts_sys s"
  shows "set_timestamps t u = set_timestamps s u"
  using assms by (simp add: set_timestamps_def)

text \<open>The outcome of a successful \<^verbatim>\<open>upipe_mp2vf_parse_picture\<close> with the registers and the
  attributes of the incoming pipe and uref.\<close>

lemma parse_picture_registers:
  assumes "upipe_mp2vf_parse_picture bs s u = Inr (True, s', Some u')"
  obtains picture d u3 where
    "uref_block_peek u (nat (next_frame_offset s)) MP2VPIC_HEADER_SIZE = Some picture"
    "num (fps s) \<noteq> 0"
    "last_temporal_reference s' =
       (if last_temporal_reference (fst (parse_picture_gop bs s u))
             < uint (mp2vpic_get_temporalreference bs picture)
        then uint (mp2vpic_get_temporalreference bs picture)
        else last_temporal_reference (fst (parse_picture_gop bs s u)))"
    "last_picture_number s' =
       (if last_temporal_reference (fst (parse_picture_gop bs s u))
             < uint (mp2vpic_get_temporalreference bs picture)
        then last_picture_number s +
               word_of_int (uint (mp2vpic_get_temporalreference bs picture) -
                            last_temporal_reference (fst (parse_picture_gop bs s u)))
        else last_picture_number s)"
    "attrs u' P_num = Some (VUnsigned (last_picture_number s +
        word_of_int (uint (mp2vpic_get_temporalreference bs picture) -
                     last_temporal_reference (fst (parse_picture_gop bs s u)))))"
    "next_frame_pts_orig s' = UINT64_MAX" "next_frame_pts s' = UINT64_MAX"
    "next_frame_pts_sys s' = UINT64_MAX"
    "next_frame_dts_orig s' =
       (if next_frame_dts_orig s = UINT64_MAX then UINT64_MAX else next_frame_dts_orig s + d)"
    "next_frame_dts s' =
       (if next_frame_dts s = UINT64_MAX then UINT64_MAX else next_frame_dts s + d)"
    "next_frame_dts_sys s' =
       (if next_frame_dts_sys s = UINT64_MAX then UINT64_MAX else next_frame_dts_sys s + d)"
    "u' = snd (set_timestamps s u3)" "fst (set_timestamps s u3)"
    "(upipe_mp2vf_find_ext u (nat (next_frame_offset s) + MP2VPIC_HEADER_SIZE) = None \<and>
      d = UCLOCK_FREQ * den (fps s) div num (fps s)) \<or>
     (\<exists>ext_offset ext.
        upipe_mp2vf_find_ext u (nat (next_frame_offset s) + MP2VPIC_HEADER_SIZE) =
          Some (ext_offset, MP2VX_ID_PICX) \<and>
        uref_block_peek u ext_offset MP2VPICX_HEADER_SIZE = Some ext \<and>
        d = picture_duration (progressive_sequence s) (mp2vpicx_get_structure bs ext)
              (mp2vpicx_get_tff bs ext) (mp2vpicx_get_rff bs ext)
              (UCLOCK_FREQ * den (fps s) div num (fps s)) \<and>
        attrs u' K_duration = Some (VUnsigned d))"
proof -
  from assms obtain s1 picture s2 d u3 where f:
    "s1 = fst (parse_picture_gop bs s u)"
    "s1 = s \<or> s1 = s\<lparr>last_temporal_reference := - 1\<rparr>"
    "0 \<le> next_frame_offset s"
    "uref_block_peek u (nat (next_frame_offset s)) MP2VPIC_HEADER_SIZE = Some picture"
    "s2 = (if uint (mp2vpic_get_temporalreference bs picture) > last_temporal_reference s1
           then s1\<lparr>last_temporal_reference := uint (mp2vpic_get_temporalreference bs picture),
                   last_picture_number := last_picture_number s1 +
                     word_of_int (uint (mp2vpic_get_temporalreference bs picture) -
                                  last_temporal_reference s1)\<rparr>
           else s1)"
    "num (fps s) \<noteq> 0"
    "s' = upipe_mp2vf_increment_dts (upipe_mp2vf_flush_pts s2) d"
    "u' = snd (set_timestamps s2 u3)" "fst (set_timestamps s2 u3)"
    "attrs u3 P_num = Some (VUnsigned (last_picture_number s1 +
        word_of_int (uint (mp2vpic_get_temporalreference bs picture) - last_temporal_reference s1)))"
    "(upipe_mp2vf_find_ext u (nat (next_frame_offset s) + MP2VPIC_HEADER_SIZE) = None \<and>
      d = UCLOCK_FREQ * den (fps s) div num (fps s)) \<or>
     (\<exists>ext_offset ext.
        upipe_mp2vf_find_ext u (nat (next_frame_offset s) + MP2VPIC_HEADER_SIZE) =
          Some (ext_offset, MP2VX_ID_PICX) \<and>
        uref_block_peek u ext_offset MP2VPICX_HEADER_SIZE = Some ext \<and>
        d = picture_duration (progressive_sequence s) (mp2vpicx_get_structure bs ext)
              (mp2vpicx_get_tff bs ext) (mp2vpicx_get_rff bs ext)
              (UCLOCK_FREQ * den (fps s) div num (fps s)) \<and>
        attrs u3 K_duration = Some (VUnsigned d))"
    by (rule parse_picture_success)
  have lpn1: "last_picture_number s1 = last_picture_number s" using f(2) by auto
  have r1: "same_registers s s1" using f(2) by (auto simp: same_registers_def)
  have r2: "same_registers s s2" using r1 unfolding f(5) by (simp add: same_registers_def)
  have ts: "set_timestamps s2 u3 = set_timestamps s u3"
    using r2 by (intro set_timestamps_regs) (simp_all add: same_registers_def)
  have other: "attrs u' k = attrs u3 k" if "k \<notin> clock_keys" for k
    unfolding f(8) ts using that by (rule set_timestamps_other)
  have ltr: "last_temporal_reference s' =
       (if last_temporal_reference s1 < uint (mp2vpic_get_temporalreference bs picture)
        then uint (mp2vpic_get_temporalreference bs picture) else last_temporal_reference s1)"
    unfolding f(7) increment_flush_regs f(5) by simp
  have lpn: "last_picture_number s' =
       (if last_temporal_reference s1 < uint (mp2vpic_get_temporalreference bs picture)
        then last_picture_number s +
               word_of_int (uint (mp2vpic_get_temporalreference bs picture) - last_temporal_reference s1)
        else last_picture_number s)"
    unfolding f(7) increment_flush_regs f(5) using lpn1 by simp
  have pn: "attrs u' P_num = Some (VUnsigned (last_picture_number s +
        word_of_int (uint (mp2vpic_get_temporalreference bs picture) - last_temporal_reference s1)))"
    using other [of P_num] f(10) lpn1 by (simp add: clock_keys_def)
  have kd: "attrs u' K_duration = attrs u3 K_duration"
    by (rule other) (simp add: clock_keys_def)
  have regs:
    "next_frame_dts_orig s' =
       (if next_frame_dts_orig s = UINT64_MAX then UINT64_MAX else next_frame_dts_orig s + d)"
    "next_frame_dts s' =
       (if next_frame_dts s = UINT64_MAX then UINT64_MAX else next_frame_dts s + d)"
    "next_frame_dts_sys s' =
       (if next_frame_dts_sys s = UINT64_MAX then UINT64_MAX else next_frame_dts_sys s + d)"
    unfolding f(7) increment_flush_regs using r2 by (simp_all add: same_registers_def)
  show ?thesis
    apply (rule that [of picture d u3])
                 apply (rule f(4))
                apply (rule f(6))
               apply (rule ltr [unfolded f(1)])
              apply (rule lpn [unfolded f(1)])
             apply (rule pn [unfolded f(1)])
            apply (simp add: f(7) increment_flush_regs)
           apply (simp add: f(7) increment_flush_regs)
          apply (simp add: f(7) increment_flush_regs)
         apply (rule regs(1))
        apply (rule regs(2))
       apply (rule regs(3))
      apply (simp add: f(8) ts)
     apply (simp add: f(9) [unfolded ts])
    using f(11) kd apply simp
    done
qed

section \<open>The claims about the framer\<close>

lemma picture_duration_spec:
  "spec_duration p st tff rff base (picture_duration p st tff rff base)"
  by (auto simp: spec_duration_def picture_duration_def MP2VPICX_FRAME_PICTURE_def
      MP2VPICX_TOP_FIELD_def MP2VPICX_BOTTOM_FIELD_def)

lemma sample_parse_case:
  "(case upipe_mp2vf_parse_picture iso13818_2 sample_pipe0 sample_frame of
      Inr (True, s', Some u') \<Rightarrow> True | _ \<Rightarrow> False)"
  by code_simp

lemma sample_parse:
  obtains s' u' where
    "upipe_mp2vf_parse_picture iso13818_2 sample_pipe0 sample_frame = Inr (True, s', Some u')"
  using sample_parse_case
  by (auto split: sum.splits prod.splits bool.splits option.splits)

lemma sample_peek:
  "uref_block_peek sample_frame 0 MP2VPIC_HEADER_SIZE = Some sample_picture"
  by (simp add: uref_block_peek_def ubuf_block_peek_def sample_frame_def sample_uref_def
      sample_picture_def MP2VPIC_HEADER_SIZE_def)

lemma sample_tr: "mp2vpic_get_temporalreference iso13818_2 sample_picture = 2"
  by code_simp

lemma sample_gop: "parse_picture_gop iso13818_2 sample_pipe0 sample_frame = (sample_pipe0, Some (False, False))"
  by (simp add: parse_picture_gop_def sample_pipe0_def)

lemma sample_pipe0_fields:
  "next_frame_offset sample_pipe0 = 0" "last_temporal_reference sample_pipe0 = - 1"
  "last_picture_number sample_pipe0 = 0" "next_frame_dts sample_pipe0 = 1000"
  "next_frame_pts sample_pipe0 = 5000" "next_frame_dts_orig sample_pipe0 = UINT64_MAX"
  "next_frame_dts_sys sample_pipe0 = UINT64_MAX" "next_frame_pts_orig sample_pipe0 = UINT64_MAX"
  "next_frame_pts_sys sample_pipe0 = UINT64_MAX"
  "fps sample_pipe0 = \<lparr>num = 25, den = 1\<rparr>" "progressive_sequence sample_pipe0 = False"
  by (simp_all add: sample_pipe0_def sample_pipe_def upipe_mp2vf_alloc_def)

text \<open>Claim C9. For every picture header that parses, the picture number published on the
  frame (\<^verbatim>\<open>p.num\<close>) is \<open>last_picture_number + (temporal_reference - last_temporal_reference)\<close>,
  computed modulo \<open>2 ^ 64\<close> with the last temporal reference as a GOP header in front of the
  picture has left it; \<open>last_picture_number\<close> and \<open>last_temporal_reference\<close> take the new
  values exactly when the temporal reference is strictly greater than the last one, and
  are unchanged otherwise.\<close>

theorem picture_number_rule:
  assumes "upipe_mp2vf_parse_picture bs s u = Inr (True, s', Some u')"
  shows "\<exists>picture ltr tr pn.
           uref_block_peek u (nat (next_frame_offset s)) MP2VPIC_HEADER_SIZE = Some picture \<and>
           ltr = last_temporal_reference (fst (parse_picture_gop bs s u)) \<and>
           tr = uint (mp2vpic_get_temporalreference bs picture) \<and>
           pn = last_picture_number s + word_of_int (tr - ltr) \<and>
           attrs u' P_num = Some (VUnsigned pn) \<and>
           (if ltr < tr
            then last_temporal_reference s' = tr \<and> last_picture_number s' = pn
            else last_temporal_reference s' = ltr \<and>
                 last_picture_number s' = last_picture_number s)"
  using assms by (rule parse_picture_registers) auto

theorem picture_number_rule_witness:
  "\<exists>s' u'. upipe_mp2vf_parse_picture iso13818_2 sample_pipe0 sample_frame = Inr (True, s', Some u') \<and>
     attrs u' P_num = Some (VUnsigned 3) \<and> last_temporal_reference s' = 2 \<and>
     last_picture_number s' = 3"
proof -
  obtain s' u' where p:
    "upipe_mp2vf_parse_picture iso13818_2 sample_pipe0 sample_frame = Inr (True, s', Some u')"
    by (rule sample_parse)
  from picture_number_rule [OF p] show ?thesis
    using p by (auto simp: sample_pipe0_fields sample_peek sample_tr sample_gop)
qed

lemma sample_find_ext:
  "upipe_mp2vf_find_ext sample_frame MP2VPIC_HEADER_SIZE = Some (8, MP2VX_ID_PICX)"
  by code_simp

lemma sample_peek_ext:
  "uref_block_peek sample_frame 8 MP2VPICX_HEADER_SIZE = Some sample_picture_ext"
  by code_simp

lemma sample_ext_fields:
  "mp2vpicx_get_structure iso13818_2 sample_picture_ext = MP2VPICX_FRAME_PICTURE"
  "mp2vpicx_get_tff iso13818_2 sample_picture_ext"
  "mp2vpicx_get_rff iso13818_2 sample_picture_ext"
  by code_simp+

lemma sample_base: "UCLOCK_FREQ div 25 = 1080000"
  by code_simp

lemma sample_duration:
  "picture_duration False MP2VPICX_FRAME_PICTURE True True 1080000 = 1620000"
  by code_simp

lemma sample_parse_result:
  assumes "upipe_mp2vf_parse_picture iso13818_2 sample_pipe0 sample_frame = Inr (True, s', Some u')"
  shows "attrs u' K_duration = Some (VUnsigned 1620000)"
    and "next_frame_dts s' = 1621000"
  using assms
proof -
  from assms obtain d where
    d: "(upipe_mp2vf_find_ext sample_frame (nat (next_frame_offset sample_pipe0) + MP2VPIC_HEADER_SIZE) = None \<and>
      d = UCLOCK_FREQ * den (fps sample_pipe0) div num (fps sample_pipe0)) \<or>
     (\<exists>ext_offset ext.
        upipe_mp2vf_find_ext sample_frame (nat (next_frame_offset sample_pipe0) + MP2VPIC_HEADER_SIZE) =
          Some (ext_offset, MP2VX_ID_PICX) \<and>
        uref_block_peek sample_frame ext_offset MP2VPICX_HEADER_SIZE = Some ext \<and>
        d = picture_duration (progressive_sequence sample_pipe0) (mp2vpicx_get_structure iso13818_2 ext)
              (mp2vpicx_get_tff iso13818_2 ext) (mp2vpicx_get_rff iso13818_2 ext)
              (UCLOCK_FREQ * den (fps sample_pipe0) div num (fps sample_pipe0)) \<and>
        attrs u' K_duration = Some (VUnsigned d))"
    and r: "next_frame_dts s' =
       (if next_frame_dts sample_pipe0 = UINT64_MAX then UINT64_MAX else next_frame_dts sample_pipe0 + d)"
    by (rule parse_picture_registers)
  from d have "d = 1620000 \<and> attrs u' K_duration = Some (VUnsigned d)"
    by (auto simp: sample_pipe0_fields sample_find_ext sample_peek_ext sample_ext_fields
        sample_base sample_duration)
  then show "attrs u' K_duration = Some (VUnsigned 1620000)" and "next_frame_dts s' = 1621000"
    using r by (simp_all add: sample_pipe0_fields UINT64_MAX_def)
qed

text \<open>Claim C4. For every picture that parses, the base duration is
  \<open>27000000 * fps_den / fps_num\<close> (64-bit unsigned arithmetic, \<open>fps_num\<close> not zero); with no
  picture coding extension in the frame this is the duration by which the DTS registers
  advance. With an extension the duration is published as \<^verbatim>\<open>k.duration\<close>, advances the DTS
  registers, and follows the rule of the specification: multiplied by \<open>1 + TFF\<close> in a
  progressive sequence with repeat-first-field, increased by its half for an interlaced
  frame picture with repeat-first-field, halved for an interlaced single field, and the
  base duration for a progressive or frame picture without repeat-first-field.\<close>

theorem frame_duration_rule:
  assumes "upipe_mp2vf_parse_picture bs s u = Inr (True, s', Some u')"
  shows "num (fps s) \<noteq> 0 \<and>
    (\<exists>d. next_frame_dts_orig s' =
            (if next_frame_dts_orig s = UINT64_MAX then UINT64_MAX else next_frame_dts_orig s + d) \<and>
          next_frame_dts s' =
            (if next_frame_dts s = UINT64_MAX then UINT64_MAX else next_frame_dts s + d) \<and>
          next_frame_dts_sys s' =
            (if next_frame_dts_sys s = UINT64_MAX then UINT64_MAX else next_frame_dts_sys s + d) \<and>
          (case upipe_mp2vf_find_ext u (nat (next_frame_offset s) + MP2VPIC_HEADER_SIZE) of
             None \<Rightarrow> d = UCLOCK_FREQ * den (fps s) div num (fps s)
           | Some (ext_offset, ext_header) \<Rightarrow>
               (\<exists>ext. uref_block_peek u ext_offset MP2VPICX_HEADER_SIZE = Some ext \<and>
                  attrs u' K_duration = Some (VUnsigned d) \<and>
                  spec_duration (progressive_sequence s) (mp2vpicx_get_structure bs ext)
                    (mp2vpicx_get_tff bs ext) (mp2vpicx_get_rff bs ext)
                    (UCLOCK_FREQ * den (fps s) div num (fps s)) d)))"
  using assms
proof (rule parse_picture_registers)
  fix picture d u3
  assume n: "num (fps s) \<noteq> 0"
    and r: "next_frame_dts_orig s' =
       (if next_frame_dts_orig s = UINT64_MAX then UINT64_MAX else next_frame_dts_orig s + d)"
    "next_frame_dts s' =
       (if next_frame_dts s = UINT64_MAX then UINT64_MAX else next_frame_dts s + d)"
    "next_frame_dts_sys s' =
       (if next_frame_dts_sys s = UINT64_MAX then UINT64_MAX else next_frame_dts_sys s + d)"
    and e: "(upipe_mp2vf_find_ext u (nat (next_frame_offset s) + MP2VPIC_HEADER_SIZE) = None \<and>
      d = UCLOCK_FREQ * den (fps s) div num (fps s)) \<or>
     (\<exists>ext_offset ext.
        upipe_mp2vf_find_ext u (nat (next_frame_offset s) + MP2VPIC_HEADER_SIZE) =
          Some (ext_offset, MP2VX_ID_PICX) \<and>
        uref_block_peek u ext_offset MP2VPICX_HEADER_SIZE = Some ext \<and>
        d = picture_duration (progressive_sequence s) (mp2vpicx_get_structure bs ext)
              (mp2vpicx_get_tff bs ext) (mp2vpicx_get_rff bs ext)
              (UCLOCK_FREQ * den (fps s) div num (fps s)) \<and>
        attrs u' K_duration = Some (VUnsigned d))"
  from e have "case upipe_mp2vf_find_ext u (nat (next_frame_offset s) + MP2VPIC_HEADER_SIZE) of
             None \<Rightarrow> d = UCLOCK_FREQ * den (fps s) div num (fps s)
           | Some (ext_offset, ext_header) \<Rightarrow>
               (\<exists>ext. uref_block_peek u ext_offset MP2VPICX_HEADER_SIZE = Some ext \<and>
                  attrs u' K_duration = Some (VUnsigned d) \<and>
                  spec_duration (progressive_sequence s) (mp2vpicx_get_structure bs ext)
                    (mp2vpicx_get_tff bs ext) (mp2vpicx_get_rff bs ext)
                    (UCLOCK_FREQ * den (fps s) div num (fps s)) d)"
    by (auto simp: picture_duration_spec)
  with n r show ?thesis by blast
qed

theorem frame_duration_rule_witness:
  "\<exists>s' u'. upipe_mp2vf_parse_picture iso13818_2 sample_pipe0 sample_frame = Inr (True, s', Some u') \<and>
     attrs u' K_duration = Some (VUnsigned (1080000 + 1080000 div 2)) \<and>
     next_frame_dts s' = 1000 + (1080000 + 1080000 div 2)"
proof -
  obtain s' u' where p:
    "upipe_mp2vf_parse_picture iso13818_2 sample_pipe0 sample_frame = Inr (True, s', Some u')"
    by (rule sample_parse)
  from frame_duration_rule [OF p] obtain d where
    r: "next_frame_dts s' =
            (if next_frame_dts sample_pipe0 = UINT64_MAX then UINT64_MAX else next_frame_dts sample_pipe0 + d)"
    and e: "\<exists>ext. uref_block_peek sample_frame 8 MP2VPICX_HEADER_SIZE = Some ext \<and>
                  attrs u' K_duration = Some (VUnsigned d) \<and>
                  spec_duration (progressive_sequence sample_pipe0) (mp2vpicx_get_structure iso13818_2 ext)
                    (mp2vpicx_get_tff iso13818_2 ext) (mp2vpicx_get_rff iso13818_2 ext)
                    (UCLOCK_FREQ * den (fps sample_pipe0) div num (fps sample_pipe0)) d"
    by (auto simp: sample_pipe0_fields sample_find_ext UINT64_MAX_def)
  from e have d: "attrs u' K_duration = Some (VUnsigned d)" "d = 1080000 + 1080000 div 2"
    by (auto simp: sample_peek_ext sample_ext_fields sample_pipe0_fields sample_base spec_duration_def)
  with r p show ?thesis
    by (auto simp: sample_pipe0_fields UINT64_MAX_def)
qed


subsection \<open>A stream without DTS\<close>

lemma no_dts_and_set:
  "k \<notin> dts_keys \<Longrightarrow> no_dts (snd ru) \<Longrightarrow> no_dts (snd (and_set ru k v))"
  by (auto simp: no_dts_def dts_keys_def and_set_other)

lemma no_dts_set_unchecked:
  "k \<notin> dts_keys \<Longrightarrow> no_dts u \<Longrightarrow> no_dts (set_unchecked u k v)"
  by (auto simp: no_dts_def dts_keys_def set_unchecked_def uref_attr_set_def split: option.splits if_splits)

lemma no_dts_attrs: "attrs u' = attrs u \<Longrightarrow> no_dts u' = no_dts u"
  by (simp add: no_dts_def)

lemma no_dts_insert: "no_dts (uref_block_insert u b) = no_dts u"
  by (auto simp: uref_block_insert_def no_dts_def split: option.splits)

lemma no_dts_and_add_plane: "no_dts (snd ru) \<Longrightarrow> no_dts (snd (and_add_plane ru p))"
  by (auto simp: and_add_plane_def dts_keys_def intro!: no_dts_and_set split: option.splits uval.splits)

lemma inc_absent: "dts_absent s \<Longrightarrow> dts_absent (upipe_mp2vf_increment_dts (upipe_mp2vf_flush_pts s) d)"
  by (simp add: dts_absent_def increment_flush_regs)

lemma dts_inv_same:
  assumes "dts_inv s" "same_scan s s'" "same_flow s s'" "dts_absent s \<Longrightarrow> dts_absent s'"
  shows "dts_inv s'"
  using assms by (simp add: dts_inv_def same_scan_def same_flow_def)

lemma same_flow_refl: "same_flow s s" by (simp add: same_flow_def)
lemma same_flow_trans: "same_flow a b \<Longrightarrow> same_flow b c \<Longrightarrow> same_flow a c" by (simp add: same_flow_def)
lemma same_flow_throw: "same_flow s (upipe_throw e s)" by (simp add: same_flow_def upipe_throw_def)

lemma absent_throw: "dts_absent (upipe_throw e s) = dts_absent s"
  by (simp add: dts_absent_def upipe_throw_def)

lemma inc_flow:
  "flow_def (upipe_mp2vf_increment_dts (upipe_mp2vf_flush_pts s) d) = flow_def s"
  "sent (upipe_mp2vf_increment_dts (upipe_mp2vf_flush_pts s) d) = sent s"
  by (simp_all add: upipe_mp2vf_increment_dts_def upipe_mp2vf_flush_pts_def Let_def)

lemma finish_flow:
  "parse_picture_finish s u d = Inr (ok, s', uo) \<Longrightarrow> same_flow s s' \<and> (dts_absent s \<longrightarrow> dts_absent s')"
  by (auto simp: parse_picture_finish_def Let_def same_flow_def upipe_throw_def dts_absent_def
      increment_flush_regs inc_flow split: if_splits)

lemma ext_flow:
  "parse_picture_ext bs s u d off = Inr (ok, s', uo) \<Longrightarrow>
   same_flow s s' \<and> (dts_absent s \<longrightarrow> dts_absent s')"
  unfolding parse_picture_ext_def Let_def
  by (auto split: option.splits if_splits simp: same_flow_throw absent_throw dest: finish_flow)

lemma duration_flow:
  "parse_picture_duration bs s u = Inr (ok, s', uo) \<Longrightarrow>
   same_flow s s' \<and> (dts_absent s \<longrightarrow> dts_absent s')"
  unfolding parse_picture_duration_def Let_def
  by (auto split: option.splits if_splits prod.splits simp: same_flow_refl
      dest: finish_flow ext_flow)

lemma header_flow:
  "parse_picture_header bs s u = Inr (ok, s', uo) \<Longrightarrow>
   same_flow s s' \<and> (dts_absent s \<longrightarrow> dts_absent s')"
  unfolding parse_picture_header_def Let_def
  apply (auto split: option.splits if_splits dest!: duration_flow)
       apply (auto simp: same_flow_def dts_absent_def upipe_throw_def)
  done

lemma gop_flow:
  "parse_picture_gop bs s u = (s', r) \<Longrightarrow> same_flow s s' \<and> (dts_absent s \<longrightarrow> dts_absent s')"
  unfolding parse_picture_gop_def
  by (auto split: option.splits if_splits simp: same_flow_def dts_absent_def upipe_throw_def)

lemma parse_picture_flow:
  "upipe_mp2vf_parse_picture bs s u = Inr (ok, s', uo) \<Longrightarrow>
   same_flow s s' \<and> (dts_absent s \<longrightarrow> dts_absent s')"
  unfolding upipe_mp2vf_parse_picture_def
  by (auto split: option.splits if_splits prod.splits
      dest!: gop_flow header_flow simp: absent_throw
      intro: same_flow_trans same_flow_throw)

lemma parse_picture_no_dts:
  assumes "upipe_mp2vf_parse_picture bs s u = Inr (True, s', Some u')" "dts_absent s"
  shows "no_dts u'"
proof -
  from assms(1) obtain u3 where "u' = snd (set_timestamps s u3)" "fst (set_timestamps s u3)"
    by (rule parse_picture_registers)
  from set_timestamps_attrs(4,5,6) [OF this(2), folded this(1)] assms(2)
  show ?thesis by (simp add: no_dts_def dts_absent_def)
qed

lemma handle_picture_flow:
  "upipe_mp2vf_handle_picture bs s u = Inr (ok, s', uo) \<Longrightarrow>
   same_flow s s' \<and> (dts_absent s \<longrightarrow> dts_absent s')"
  unfolding upipe_mp2vf_handle_picture_def Let_def
  apply (auto split: sum.splits prod.splits bool.splits option.splits uval.splits if_splits
      dest!: parse_picture_flow)
  apply (auto simp: same_flow_def dts_absent_def upipe_throw_def)
  done

lemma insert_cached_no_dts: "insert_cached c u = Some u' \<Longrightarrow> no_dts u' = no_dts u"
  by (auto simp: insert_cached_def no_dts_insert split: option.splits)

lemma handle_picture_no_dts:
  assumes "upipe_mp2vf_handle_picture bs s u = Inr (True, s', Some u')" "dts_absent s"
  shows "no_dts u'"
proof -
  from assms(1) obtain s1 u1 where p: "upipe_mp2vf_parse_picture bs s u = Inr (True, s1, Some u1)"
    by (auto simp: upipe_mp2vf_handle_picture_def split: sum.splits prod.splits bool.splits option.splits)
  then have n: "no_dts u1" using assms(2) by (rule parse_picture_no_dts)
  have k: "F_random \<notin> dts_keys" by (simp add: dts_keys_def)
  from assms(1) p n show ?thesis
    unfolding upipe_mp2vf_handle_picture_def Let_def
    by (auto split: option.splits uval.splits if_splits
        simp: no_dts_set_unchecked [OF k] no_dts_insert dest!: insert_cached_no_dts)
qed

lemma chroma_no_dts:
  "parse_sequence_chroma c r = Some r' \<Longrightarrow> no_dts (snd r) \<Longrightarrow> no_dts (snd r')"
  unfolding parse_sequence_chroma_def
  by (auto split: if_splits intro!: no_dts_and_set no_dts_and_add_plane simp: dts_keys_def)

lemma sequence_ext_inv:
  assumes "parse_sequence_ext bs s l = (s', r)"
  shows "same_flow s s'" and "dts_absent s \<Longrightarrow> dts_absent s'"
    and "\<And>l'. r = Some l' \<Longrightarrow> no_dts (snd (ret_flow_def l)) \<Longrightarrow> no_dts (snd (ret_flow_def l'))"
  using assms unfolding parse_sequence_ext_def Let_def
  by (auto split: option.splits if_splits
      simp: same_flow_def dts_absent_def upipe_throw_def dts_keys_def
      intro!: no_dts_and_set no_dts_and_add_plane dest!: chroma_no_dts)

lemma display_no_dts:
  "parse_sequence_display bs s r = Some r' \<Longrightarrow> no_dts (snd r) \<Longrightarrow> no_dts (snd r')"
  unfolding parse_sequence_display_def
  by (auto split: option.splits intro!: no_dts_and_set simp: dts_keys_def)

lemma sequence_finish_inv:
  assumes "parse_sequence_finish bs s a l = Inr (ok, s')" "dts_inv s" "no_dts (snd (ret_flow_def l))"
  shows "dts_inv s'"
proof -
  have k: "P_hsize \<notin> dts_keys" "P_vsize \<notin> dts_keys" "P_aspect \<notin> dts_keys"
    "Pic_flow_fps \<notin> dts_keys" "Block_flow_octetrate \<notin> dts_keys"
    "Block_flow_cpb_buffer \<notin> dts_keys"
    by (simp_all add: dts_keys_def)
  have n: "no_dts (snd (and_set (and_set (and_set (and_set (and_set (and_set (ret_flow_def l)
      P_hsize v1) P_vsize v2) P_aspect v3) Pic_flow_fps v4) Block_flow_octetrate v5)
      Block_flow_cpb_buffer v6))" for v1 v2 v3 v4 v5 v6
    by (intro no_dts_and_set k assms(3))
  from assms(1,2) show ?thesis
    unfolding parse_sequence_finish_def Let_def
    by (auto split: option.splits if_splits
        simp: dts_inv_def dts_absent_def upipe_throw_def upipe_mp2vf_store_flow_def_def
        dest!: display_no_dts [OF _ n])
qed

lemma dts_inv_throw: "dts_inv (upipe_throw e s) = dts_inv s"
  by (simp add: dts_inv_def dts_absent_def upipe_throw_def)

lemma dts_inv_flow:
  "dts_inv s \<Longrightarrow> same_flow s s' \<Longrightarrow> same_scan s s' \<Longrightarrow> (dts_absent s \<Longrightarrow> dts_absent s') \<Longrightarrow> dts_inv s'"
  by (simp add: dts_inv_def same_flow_def same_scan_def)

lemma parse_sequence_inv:
  assumes "upipe_mp2vf_parse_sequence bs s = Inr (ok, s')" "dts_inv s"
  shows "dts_inv s'"
proof -
  { fix fdi fd l0 l' s1 a
    assume fdi: "flow_def_input s = Some fdi" and d: "uref_dup fdi = Some fd"
      and l0: "ret_flow_def l0 = (True, fd)"
      and e: "parse_sequence_ext bs s l0 = (s1, Some l')"
      and f: "parse_sequence_finish bs s1 a l' = Inr (ok, s')"
    from fdi assms(2) have "no_dts fdi" by (simp add: dts_inv_def)
    with d have "no_dts fd" by (auto simp: uref_dup_def split: if_splits)
    with sequence_ext_inv(3) [OF e] l0 have n: "no_dts (snd (ret_flow_def l'))" by simp
    have "dts_inv s1"
      using assms(2) sequence_ext_inv(1) [OF e] same_scan_sequence_ext [OF e] sequence_ext_inv(2) [OF e]
      by (rule dts_inv_flow)
    from f this n have "dts_inv s'" by (rule sequence_finish_inv) }
  note main = this
  { fix l0 s1
    assume e: "parse_sequence_ext bs s l0 = (s1, None)"
    have "dts_inv s1"
      using assms(2) sequence_ext_inv(1) [OF e] same_scan_sequence_ext [OF e] sequence_ext_inv(2) [OF e]
      by (rule dts_inv_flow) }
  note fail = this
  from assms show ?thesis
    unfolding upipe_mp2vf_parse_sequence_def Let_def
    by (auto split: option.splits if_splits prod.splits simp: dts_inv_throw
        dest: fail elim: main [rotated 3])
qed

lemma dts_inv_updates:
  "dts_inv (s\<lparr>next_frame_size := z\<rparr>) = dts_inv s"
  "dts_inv (s\<lparr>next_frame_offset := off\<rparr>) = dts_inv s"
  "dts_inv (s\<lparr>next_frame_sequence := b\<rparr>) = dts_inv s"
  "dts_inv (s\<lparr>next_frame_slice := b\<rparr>) = dts_inv s"
  "dts_inv (s\<lparr>got_discontinuity := b\<rparr>) = dts_inv s"
  "dts_inv (s\<lparr>sequence_header := h, sequence_ext := x, sequence_display := d\<rparr>) = dts_inv s"
  "dts_inv (s\<lparr>systime_rap := r\<rparr>) = dts_inv s"
  "dts_inv (add4 s) = dts_inv s"
  "dts_inv (reset_next_frame s) = dts_inv s"
  "dts_inv (upipe_mp2vf_sync_lost s) = dts_inv s"
  "dts_inv (upipe_mp2vf_sync_acquired s) = dts_inv s"
  "dts_inv (upipe_mp2vf_flush_pts s) = dts_inv s"
  by (simp_all add: dts_inv_def dts_absent_def add4_def reset_next_frame_def
      upipe_mp2vf_sync_lost_def upipe_mp2vf_sync_acquired_def upipe_throw_def
      upipe_mp2vf_flush_pts_def)

lemma dts_inv_flush_dts: "dts_inv s \<Longrightarrow> dts_inv (upipe_mp2vf_flush_dts s)"
  by (simp add: dts_inv_def dts_absent_def upipe_mp2vf_flush_dts_def)

lemma handle_sequence_inv:
  assumes "upipe_mp2vf_handle_sequence bs s u = Inr (ok, s')" "dts_inv s"
  shows "dts_inv s'"
  using assms unfolding upipe_mp2vf_handle_sequence_def Let_def
  by (auto split: sum.splits option.splits if_splits prod.splits
      simp: dts_inv_throw dts_inv_updates dest!: parse_sequence_inv)

lemma output_inv:
  "dts_inv s \<Longrightarrow> no_dts u \<Longrightarrow> dts_inv (upipe_mp2vf_output s u)"
  by (auto simp: upipe_mp2vf_output_def dts_inv_def dts_absent_def split: option.splits)

lemma output_frame_inv:
  assumes "upipe_mp2vf_output_frame bs s = Inr (ok, s')" "dts_inv s"
  shows "dts_inv s'"
proof -
  have k: "K_systime_rap \<notin> dts_keys" by (simp add: dts_keys_def)
  { fix s1 s2 u u2
    assume 1: "dts_inv s1" and 2: "upipe_mp2vf_handle_picture bs s1 u = Inr (True, s2, Some u2)"
    from 1 have a: "dts_absent s1" by (simp add: dts_inv_def)
    from handle_picture_flow [OF 2] same_scan_handle_picture [OF 2] 1
    have i2: "dts_inv s2" by (auto intro: dts_inv_flow)
    from 2 a have n: "no_dts u2" by (rule handle_picture_no_dts)
    have "dts_inv (upipe_mp2vf_output s2 u2)"
      "dts_inv (upipe_mp2vf_output s2 (set_unchecked u2 K_systime_rap v))" for v
      using i2 n by (auto intro!: output_inv no_dts_set_unchecked [OF k]) }
  note ok = this
  { fix s1 s2 u uo
    assume 1: "dts_inv s1" and 2: "upipe_mp2vf_handle_picture bs s1 u = Inr (False, s2, uo)"
    from handle_picture_flow [OF 2] same_scan_handle_picture [OF 2] 1
    have "dts_inv s2" by (auto intro: dts_inv_flow) }
  note ko = this
  from assms show ?thesis
    unfolding upipe_mp2vf_output_frame_def
    by (auto split: sum.splits option.splits if_splits prod.splits bool.splits
        simp: dts_inv_throw dest!: handle_sequence_inv dest: ok ko)
qed

lemma promote_inv:
  assumes "dts_inv s"
  shows "dts_inv (upipe_mp2vf_promote_uref s)"
  using assms
  by (auto simp: upipe_mp2vf_promote_uref_def dts_inv_def dts_absent_def no_dts_def
      promote_timestamp_def uref_attr_get_unsigned_def split: option.splits)

lemma no_dts_trim: "no_dts (uref_block_trim u n) = no_dts u"
  by (auto simp: uref_block_trim_def no_dts_def split: option.splits)

lemma consume_inv:
  "dts_inv s \<Longrightarrow> \<forall>h \<in> set q. no_dts h \<Longrightarrow> set q \<subseteq> set (urefs s) \<Longrightarrow>
   dts_inv (octet_stream_consume q s n)"
proof (induction q arbitrary: s n)
  case Nil
  then show ?case
    by (auto simp: dts_inv_def dts_absent_def no_dts_trim split: option.splits)
next
  case (Cons h q)
  show ?case
  proof (cases "next_uref s")
    case None
    with Cons.prems show ?thesis by simp
  next
    case (Some nu)
    show ?thesis
    proof (cases "n < next_uref_size s")
      case True
      with Some Cons.prems show ?thesis
        by (auto simp: dts_inv_def dts_absent_def no_dts_trim)
    next
      case False
      let ?s1 = "upipe_mp2vf_promote_uref
                     (s\<lparr>next_uref := Some (h\<lparr>ubuf := ubuf (uref_block_trim nu (next_uref_size s))\<rparr>),
                        next_uref_size := uref_block_size h,
                        urefs := q\<rparr>)"
      have "no_dts (h\<lparr>ubuf := ubuf (uref_block_trim nu (next_uref_size s))\<rparr>)"
        using Cons.prems(2) by (simp add: no_dts_def)
      then have "dts_inv ?s1"
        using Cons.prems by (intro promote_inv) (auto simp: dts_inv_def dts_absent_def)
      moreover have "urefs ?s1 = q" by (simp add: promote_scan)
      ultimately have "dts_inv (octet_stream_consume q ?s1 (n - next_uref_size s))"
        using Cons.prems(2) by (intro Cons.IH) auto
      with Some False show ?thesis by simp
    qed
  qed
qed

lemma consume_inv':
  "dts_inv s \<Longrightarrow> dts_inv (upipe_mp2vf_consume_octet_stream s n)"
  unfolding upipe_mp2vf_consume_octet_stream_def
  by (rule consume_inv) (auto simp: dts_inv_def)

lemma append_inv:
  "dts_inv s \<Longrightarrow> no_dts u \<Longrightarrow> dts_inv (upipe_mp2vf_append_octet_stream s u)"
  unfolding upipe_mp2vf_append_octet_stream_def
  apply (cases "next_uref s")
   apply simp
   apply (rule promote_inv)
   apply (simp add: dts_inv_def dts_absent_def)
  apply (auto simp: dts_inv_def dts_absent_def uref_block_append_def no_dts_def split: option.splits)
  done

lemma open_next_frame_inv: "dts_inv (open_next_frame s start) = dts_inv s"
  by (simp add: open_next_frame_def dts_inv_updates)

lemma work_output_inv:
  assumes "work_output bs s start = Inr s'" "dts_inv s"
  shows "dts_inv s'"
  using assms(1)
proof (cases rule: work_output_cases)
  case (1 s1)
  from 1(1) assms(2) have "dts_inv s1" by (rule output_frame_inv)
  then show ?thesis unfolding 1(2) by (simp add: dts_inv_updates consume_inv')
next
  case (2 s1)
  from 2(1) assms(2) have "dts_inv s1" by (rule output_frame_inv)
  then show ?thesis unfolding 2(2) by (simp add: dts_inv_updates open_next_frame_inv consume_inv')
qed

lemma find_inv: "upipe_mp2vf_find s = (s1, r) \<Longrightarrow> dts_inv s1 = dts_inv s"
  by (auto simp: upipe_mp2vf_find_def dts_inv_updates split: option.splits)

lemma map_sum_Pair_True:
  "map_sum id (Pair True) x = Inr (c, s') \<longleftrightarrow> c \<and> x = Inr s'"
  by (cases x) auto

lemma work_step_inv:
  assumes "work_step bs s = Inr (c, s')" "dts_inv s"
  shows "dts_inv s'"
proof -
  obtain s1 r where f: "upipe_mp2vf_find s = (s1, r)" by (cases "upipe_mp2vf_find s")
  with assms(2) have i: "dts_inv s1" by (simp add: find_inv)
  show ?thesis
  proof (cases r)
    case None
    with assms(1) f i show ?thesis by (simp add: work_step_def)
  next
    case (Some start)
    from assms(1) f Some i show ?thesis
      unfolding work_step_def Let_def
      by (auto split: if_splits simp: dts_inv_updates consume_inv' dts_inv_flush_dts
          map_sum_Pair_True dest: work_output_inv)
  qed
qed

lemma work_inv:
  "upipe_mp2vf_work bs s = Inr s' \<Longrightarrow> dts_inv s \<Longrightarrow> dts_inv s'"
proof (induction bs s rule: upipe_mp2vf_work.induct)
  fix bs s
  assume IH: "\<And>nu r. next_uref s = Some nu \<Longrightarrow> work_step bs s = Inr r \<Longrightarrow> fst r \<Longrightarrow>
      upipe_mp2vf_work bs (snd r) = Inr s' \<Longrightarrow> dts_inv (snd r) \<Longrightarrow> dts_inv s'"
    and w: "upipe_mp2vf_work bs s = Inr s'" and i: "dts_inv s"
  show "dts_inv s'"
  proof (cases "next_uref s")
    case None
    with w i show ?thesis by (simp add: upipe_mp2vf_work.simps [of bs s])
  next
    case (Some nu)
    show ?thesis
    proof (cases "work_step bs s")
      case (Inl e)
      with Some w show ?thesis by (simp add: upipe_mp2vf_work.simps [of bs s])
    next
      case (Inr r)
      have ir: "dts_inv (snd r)" using Inr i by (cases r) (auto dest: work_step_inv)
      show ?thesis
      proof (cases "fst r")
        case True
        from w have "upipe_mp2vf_work bs (snd r) = Inr s'"
          by (subst (asm) upipe_mp2vf_work.simps) (simp add: Some Inr True)
        then show ?thesis by (rule IH [OF Some Inr True _ ir])
      next
        case False
        from w have "s' = snd r"
          by (subst (asm) upipe_mp2vf_work.simps) (simp add: Some Inr False)
        with ir show ?thesis by simp
      qed
    qed
  qed
qed

lemma input_discontinuity_inv:
  "input_discontinuity s = Inr s' \<Longrightarrow> dts_inv s \<Longrightarrow> dts_inv s'"
  by (auto simp: input_discontinuity_def upipe_mp2vf_init_octet_stream_def
      upipe_mp2vf_clean_octet_stream_def dts_inv_def dts_absent_def no_dts_set_unchecked dts_keys_def
      split: if_splits option.splits)

lemma input_inv:
  assumes "upipe_mp2vf_input bs s u = Inr s'" "dts_inv s" "no_dts u"
  shows "dts_inv s'"
proof -
  have fd: "dts_inv (s\<lparr>flow_def_input := Some u\<rparr>)"
    using assms(2,3) by (simp add: dts_inv_def dts_absent_def)
  have fe: "dts_inv (upipe_mp2vf_store_flow_def (s\<lparr>flow_def_input := None\<rparr>) None)"
    using assms(2) by (simp add: dts_inv_def dts_absent_def upipe_mp2vf_store_flow_def_def)
  { fix s1 assume "upipe_mp2vf_work bs (upipe_mp2vf_append_octet_stream s1 u) = Inr s'" "dts_inv s1"
    then have "dts_inv s'" using assms(3) by (auto dest!: work_inv intro: append_inv) }
  note w = this
  { fix r assume "map_sum id snd (upipe_mp2vf_parse_sequence bs (s\<lparr>flow_def_input := Some u\<rparr>)) = Inr s'"
    then have "dts_inv s'" using fd
      by (cases "upipe_mp2vf_parse_sequence bs (s\<lparr>flow_def_input := Some u\<rparr>)")
         (auto dest: parse_sequence_inv) }
  note ps = this
  from assms(1,2) show ?thesis
    unfolding upipe_mp2vf_input_def Let_def
    by (auto split: option.splits uval.splits if_splits sum.splits
        simp: fd fe dts_inv_throw dest: w ps input_discontinuity_inv)
qed

lemma inputs_inv:
  "upipe_mp2vf_inputs bs s us = Inr s' \<Longrightarrow> dts_inv s \<Longrightarrow> \<forall>u \<in> set us. no_dts u \<Longrightarrow> dts_inv s'"
  by (induction us arbitrary: s) (auto split: sum.splits dest: input_inv)

lemma alloc_inv: "dts_inv (upipe_mp2vf_alloc p f)"
  by (simp add: dts_inv_def dts_absent_def upipe_mp2vf_alloc_def)

lemma sample_stream_case:
  "(case upipe_mp2vf_inputs iso13818_2 (upipe_mp2vf_alloc False \<lparr>num = 0, den = 0\<rparr>) sample_stream of
      Inr s' \<Rightarrow> map uref_block_size (sent s') = [0, 26] | Inl e \<Rightarrow> False)"
  by code_simp

lemma sample_stream_no_dts: "\<forall>u \<in> set sample_stream. no_dts u"
  by (simp add: sample_stream_def sample_flow_def_def sample_uref_def no_dts_def)

text \<open>Claim C10. The increment of the DTS registers after a frame leaves a register that
  holds the absent sentinel \<open>UINT64_MAX\<close> unchanged. Hence absence is kept frame after frame:
  when no input uref of a stream carries a DTS attribute, the three DTS registers are
  absent after the whole stream has been input to a fresh pipe, and every uref the pipe
  has sent downstream has \<^verbatim>\<open>k.dts.orig\<close>, \<^verbatim>\<open>k.dts\<close> and \<^verbatim>\<open>k.dts.sys\<close> deleted: the framer itself
  never turns an absent DTS into a timestamp.\<close>

theorem absent_dts_preserved:
  "(next_frame_dts_orig s = UINT64_MAX \<longrightarrow>
      next_frame_dts_orig (upipe_mp2vf_increment_dts s d) = UINT64_MAX) \<and>
   (next_frame_dts s = UINT64_MAX \<longrightarrow>
      next_frame_dts (upipe_mp2vf_increment_dts s d) = UINT64_MAX) \<and>
   (next_frame_dts_sys s = UINT64_MAX \<longrightarrow>
      next_frame_dts_sys (upipe_mp2vf_increment_dts s d) = UINT64_MAX) \<and>
   ((\<forall>u \<in> set us. no_dts u) \<and>
    upipe_mp2vf_inputs bs (upipe_mp2vf_alloc uninit_progressive uninit_fps) us = Inr s' \<longrightarrow>
      dts_absent s' \<and> (\<forall>f \<in> set (sent s'). no_dts f))"
proof (intro conjI impI)
  assume "(\<forall>u \<in> set us. no_dts u) \<and>
    upipe_mp2vf_inputs bs (upipe_mp2vf_alloc uninit_progressive uninit_fps) us = Inr s'"
  then have "dts_inv s'" using alloc_inv by (auto dest: inputs_inv)
  then show "dts_absent s'" and "\<forall>f \<in> set (sent s'). no_dts f"
    by (simp_all add: dts_inv_def)
qed (simp_all add: upipe_mp2vf_increment_dts_def Let_def)

theorem absent_dts_preserved_witness:
  "\<exists>s'. upipe_mp2vf_inputs iso13818_2 (upipe_mp2vf_alloc False \<lparr>num = 0, den = 0\<rparr>)
           sample_stream = Inr s' \<and>
         map uref_block_size (sent s') = [0, 26] \<and> dts_absent s' \<and>
         (\<forall>f \<in> set (sent s'). no_dts f) \<and>
         next_frame_dts (upipe_mp2vf_increment_dts s' 1080000) = UINT64_MAX"
proof -
  from sample_stream_case obtain s' where r:
    "upipe_mp2vf_inputs iso13818_2 (upipe_mp2vf_alloc False \<lparr>num = 0, den = 0\<rparr>) sample_stream = Inr s'"
    "map uref_block_size (sent s') = [0, 26]"
    by (auto split: sum.splits)
  from absent_dts_preserved [of s' 1080000 sample_stream iso13818_2 False "\<lparr>num = 0, den = 0\<rparr>" s']
    sample_stream_no_dts r
  show ?thesis by (auto simp: dts_absent_def)
qed

subsection \<open>The timestamps along the loop\<close>

































lemma sample_turn_case:
  "(case work_step iso13818_2 sample_turn of
      Inr (c, s') \<Rightarrow>
        sends sample_turn s' \<and> \<not> promotes sample_turn s' \<and>
        attrs (last (sent s')) K_duration = None \<and> num (fps s') = 25 \<and> den (fps s') = 1 \<and>
        (case quiet_turns iso13818_2 (Suc 0) s' of
           Some t \<Rightarrow> (case work_step iso13818_2 t of Inr (c', t') \<Rightarrow> sends t t' | _ \<Rightarrow> False)
         | None \<Rightarrow> False)
    | _ \<Rightarrow> False)"
  by code_simp

lemma sample_turn:
  obtains c s' t c' t' where
    "work_step iso13818_2 sample_turn = Inr (c, s')" "sends sample_turn s'"
    "\<not> promotes sample_turn s'"
    "attrs (last (sent s')) K_duration = None" "num (fps s') = 25" "den (fps s') = 1"
    "quiet_turns iso13818_2 (Suc 0) s' = Some t"
    "work_step iso13818_2 t = Inr (c', t')" "sends t t'"
proof -
  from sample_turn_case obtain c s' where w: "work_step iso13818_2 sample_turn = Inr (c, s')"
    and a: "sends sample_turn s'" "\<not> promotes sample_turn s'"
      "attrs (last (sent s')) K_duration = None" "num (fps s') = 25" "den (fps s') = 1"
    and cq: "(case quiet_turns iso13818_2 (Suc 0) s' of
           Some t \<Rightarrow> (case work_step iso13818_2 t of Inr (c', t') \<Rightarrow> sends t t' | _ \<Rightarrow> False)
         | None \<Rightarrow> False)"
    by (cases "work_step iso13818_2 sample_turn")
       (auto simp del: quiet_turns.simps split: prod.splits)
  from cq obtain t where q: "quiet_turns iso13818_2 (Suc 0) s' = Some t"
    and cw: "(case work_step iso13818_2 t of Inr (c', t') \<Rightarrow> sends t t' | _ \<Rightarrow> False)"
    by (cases "quiet_turns iso13818_2 (Suc 0) s'") (auto simp del: quiet_turns.simps)
  from cw obtain c' t' where v: "work_step iso13818_2 t = Inr (c', t')" "sends t t'"
    by (cases "work_step iso13818_2 t") auto
  from w a q v show thesis by (rule that)
qed





subsection \<open>Discontinuities on input\<close>



















subsection \<open>The boundaries of the frames\<close>









lemma insert_octets_app:
  "uref_octets x = p @ r \<Longrightarrow> \<exists>pre. uref_octets (uref_block_insert x b) = pre @ r"
  by (auto simp: uref_block_insert_def uref_octets_def split: option.splits)














section \<open>Properties of the inline dictionary\<close>

lemma shorthands_length: "length inline_shorthands = 31"
  by (simp add: inline_shorthands_def)

text \<open>Claim C6. The table of shorthands has the 31 entries of the canonical list, in its
  order, and \<^verbatim>\<open>udict_inline_name\<close> resolves the code at position \<open>c\<close> past
  \<^verbatim>\<open>UDICT_TYPE_SHORTHAND\<close> to entry \<open>c\<close> of the table for \<open>1 \<le> c \<le> 31\<close>, and fails for every
  \<open>c > 32\<close>. For \<open>c = 32\<close> it does not fail: the bound of \<^verbatim>\<open>udict_inline_shorthand\<close> lets the
  code through and the entry read, one past the end of the table, is undefined.\<close>

theorem shorthand_table_bound:
  "(1 \<le> c \<and> c \<le> 31 \<longrightarrow>
      udict_inline_name (UDICT_TYPE_SHORTHAND + c) = Inr (Some (inline_shorthands ! (c - 1)))) \<and>
   udict_inline_name (UDICT_TYPE_SHORTHAND + 32) = Inl Out_of_bounds \<and>
   (32 < c \<longrightarrow> udict_inline_name (UDICT_TYPE_SHORTHAND + c) = Inr None) \<and>
   length inline_shorthands = 31 \<and>
   map fst inline_shorthands =
     [''f.disc'', ''f.random'', ''f.error'', ''f.def'', ''f.rawdef'', ''f.program'', ''f.lang'',
      ''k.systime'', ''k.systime.rap'', ''k.pts'', ''k.pts.orig'', ''k.pts.sys'', ''k.dts'',
      ''k.dts.orig'', ''k.dts.sys'', ''k.vbvdelay'', ''k.duration'', ''b.start'', ''b.end'',
      ''p.num'', ''p.hsize'', ''p.vsize'', ''p.hsizevis'', ''p.vsizevis'', ''p.hposition'',
      ''p.vposition'', ''p.aspect'', ''p.progressive'', ''p.tf'', ''p.bf'', ''p.tff'']"
proof (intro conjI impI)
  assume "1 \<le> c \<and> c \<le> 31"
  then have "\<not> 31 \<le> c - Suc 0" "0 < c" by linarith+
  then show "udict_inline_name (UDICT_TYPE_SHORTHAND + c) =
      Inr (Some (inline_shorthands ! (c - 1)))"
    by (simp add: udict_inline_name_def udict_inline_shorthand_def shorthands_length)
next
  show "udict_inline_name (UDICT_TYPE_SHORTHAND + 32) = Inl Out_of_bounds"
    by (simp add: udict_inline_name_def udict_inline_shorthand_def shorthands_length)
next
  assume "32 < c"
  then show "udict_inline_name (UDICT_TYPE_SHORTHAND + c) = Inr None"
    by (simp add: udict_inline_name_def udict_inline_shorthand_def shorthands_length)
next
  show "length inline_shorthands = 31" by (rule shorthands_length)
next
  show "map fst inline_shorthands =
     [''f.disc'', ''f.random'', ''f.error'', ''f.def'', ''f.rawdef'', ''f.program'', ''f.lang'',
      ''k.systime'', ''k.systime.rap'', ''k.pts'', ''k.pts.orig'', ''k.pts.sys'', ''k.dts'',
      ''k.dts.orig'', ''k.dts.sys'', ''k.vbvdelay'', ''k.duration'', ''b.start'', ''b.end'',
      ''p.num'', ''p.hsize'', ''p.vsize'', ''p.hsizevis'', ''p.vsizevis'', ''p.hposition'',
      ''p.vposition'', ''p.aspect'', ''p.progressive'', ''p.tf'', ''p.bf'', ''p.tff'']"
    by (simp add: inline_shorthands_def)
qed

theorem shorthand_table_bound_witness:
  "udict_inline_name (UDICT_TYPE_SHORTHAND + 13) = Inr (Some (''k.dts'', UDICT_TYPE_UNSIGNED)) \<and>
   udict_inline_name (UDICT_TYPE_SHORTHAND + 31) = Inr (Some (''p.tff'', UDICT_TYPE_VOID)) \<and>
   udict_inline_name (UDICT_TYPE_SHORTHAND + 32) = Inl Out_of_bounds \<and>
   udict_inline_name (UDICT_TYPE_SHORTHAND + 33) = Inr None"
  using shorthand_table_bound [of 13] shorthand_table_bound [of 31] shorthand_table_bound [of 33]
  by (simp add: inline_shorthands_def)

end
